theory Spec2Isabelle
  imports Main
begin

section \<open>The flashcard session of \<^verbatim>\<open>src/composables/flashcard.ts\<close>\<close>

subsection \<open>Data model\<close>

text \<open>
  \<^verbatim>\<open>Flashcard\<close> is imported from \<^verbatim>\<open>@/types/Flashcard\<close>; the module builds its values as
  \<^verbatim>\<open>{ imageSrc, name }\<close>, two strings. \<^verbatim>\<open>HistoryRecord\<close> is the interface of lines 5-9, its
  \<^verbatim>\<open>timestamp\<close> the integer of \<^verbatim>\<open>Date.now()\<close>.
\<close>

record Flashcard =
  imageSrc :: string
  name :: string

record HistoryRecord =
  flashcard :: Flashcard
  isCorrect :: bool
  timestamp :: int

text \<open>
  The module-level singletons of lines 12-18, together with the browser's
  \<^verbatim>\<open>localStorage\<close> (a map from keys to strings). The ref \<^verbatim>\<open>flashcard\<close> is the field
  \<open>flashcard_value\<close>, since \<open>flashcard\<close> is already the field of a history record.
\<close>

record session =
  currentDeck :: "Flashcard list"
  loadFinished :: bool
  flashcard_value :: Flashcard
  showAnswer :: bool
  historyRecords :: "HistoryRecord list"
  cardIndex :: int
  isInitialized :: bool
  localStorage :: "string \<rightharpoonup> string"

definition placeholder :: Flashcard where
  "placeholder = \<lparr>imageSrc = '''', name = ''''\<rparr>"

definition deckCacheKey :: string where
  "deckCacheKey = ''flashcardDeck''"

definition historyKey :: string where
  "historyKey = ''flashcardHistory''"

text \<open>The state of a freshly loaded module, over whatever the store holds.\<close>

definition initial_session :: "(string \<rightharpoonup> string) \<Rightarrow> session" where
  "initial_session store =
     \<lparr>currentDeck = [], loadFinished = False, flashcard_value = placeholder,
      showAnswer = False, historyRecords = [], cardIndex = 0, isInitialized = False,
      localStorage = store\<rparr>"

subsection \<open>Card selection and answer history\<close>

text \<open>
  \<^verbatim>\<open>Math.random()\<close> gives a double at least 0 and less than 1. Such a double is
  \<open>mantissa / 2 ^ scale\<close> with a mantissa of at most 53 bits; the model takes the two
  numbers as its argument \<open>r\<close>.
\<close>

record rand =
  mantissa :: nat
  scale :: nat

definition is_random :: "rand \<Rightarrow> bool" where
  "is_random r = (mantissa r < 2 ^ 53 \<and> mantissa r < 2 ^ scale r \<and> scale r \<le> 1074)"

text \<open>The number of binary digits of a number.\<close>

fun bit_length :: "nat \<Rightarrow> nat" where
  "bit_length n = (if n = 0 then 0 else Suc (bit_length (n div 2)))"

declare bit_length.simps [simp del]

text \<open>
  The product of two doubles is the exact product rounded to 53 significant bits, to the
  nearest, a tie to the even neighbour. \<open>round_to_53 q\<close> rounds the whole number \<open>q\<close> so;
  scaling it by a power of two does not change the digits that are kept.
\<close>

definition round_to_53 :: "nat \<Rightarrow> nat" where
  "round_to_53 q =
     (if q < 2 ^ 53 then q
      else (let sh = bit_length q - 53;
                hi = q div 2 ^ sh;
                lo = q mod 2 ^ sh;
                half = 2 ^ (sh - 1)
            in (if half < lo \<or> (lo = half \<and> odd hi) then hi + 1 else hi) * 2 ^ sh))"

text \<open>
  \<^verbatim>\<open>Math.floor(Math.random() * n)\<close> for the length \<open>n\<close> of an array, which is a whole
  number below \<open>2 ^ 32\<close> and so a double as it is: the exact product is
  \<open>mantissa * n / 2 ^ scale\<close>, it is rounded to a double, and the floor is taken.
\<close>

definition random_index :: "rand \<Rightarrow> nat \<Rightarrow> int" where
  "random_index r n = int (round_to_53 (mantissa r * n) div 2 ^ scale r)"

text \<open>\<^verbatim>\<open>deck[i]\<close>: an index outside the array reads \<^verbatim>\<open>undefined\<close>, here \<open>None\<close>.\<close>

definition at_index :: "'a list \<Rightarrow> int \<Rightarrow> 'a option" where
  "at_index xs i = (if 0 \<le> i \<and> i < int (length xs) then Some (xs ! nat i) else None)"

text \<open>
  Lines 142-149. The empty deck only logs an error. For a double \<open>r\<close> below 1 the index
  is one of the deck's (\<open>random_index_range\<close> below); for any other \<open>r\<close> the model
  leaves the active card alone.
\<close>

definition initFlashcard :: "rand \<Rightarrow> session \<Rightarrow> session" where
  "initFlashcard r s =
     (if length (currentDeck s) > 0
      then (case at_index (currentDeck s) (random_index r (length (currentDeck s))) of
              Some c \<Rightarrow> s\<lparr>flashcard_value := c\<rparr>
            | None \<Rightarrow> s)
      else s)"

text \<open>Lines 177-184; \<^verbatim>\<open>??\<close> replaces the \<^verbatim>\<open>undefined\<close> of an out-of-range read.\<close>

definition NextCard :: "rand \<Rightarrow> session \<Rightarrow> session" where
  "NextCard r s =
     (let i = random_index r (length (currentDeck s)) in
      s\<lparr>cardIndex := i,
        flashcard_value := (case at_index (currentDeck s) i of
                              Some c \<Rightarrow> c
                            | None \<Rightarrow> \<lparr>imageSrc = '''', name = ''''\<rparr>),
        showAnswer := False\<rparr>)"

text \<open>
  Lines 186-199, with \<open>now\<close> the value of \<^verbatim>\<open>Date.now()\<close>. The guard
  \<^verbatim>\<open>if (!flashcard.value) return\<close> never fires on a \<^verbatim>\<open>Flashcard\<close>: an object is truthy.
  \<^verbatim>\<open>push\<close> appends at the end, \<^verbatim>\<open>shift\<close> removes the first element.
\<close>

definition AddHistoryRecord :: "bool \<Rightarrow> int \<Rightarrow> session \<Rightarrow> session" where
  "AddHistoryRecord correct now s =
     (let record = \<lparr>flashcard = flashcard_value s, isCorrect = correct, timestamp = now\<rparr>;
          pushed = historyRecords s @ [record]
      in s\<lparr>historyRecords := (if length pushed > 100 then tl pushed else pushed)\<rparr>)"

text \<open>Lines 201-206.\<close>

definition handleAnswer :: "bool \<Rightarrow> int \<Rightarrow> rand \<Rightarrow> session \<Rightarrow> session" where
  "handleAnswer correct now r s = NextCard r (AddHistoryRecord correct now s)"

definition HandleCorrect :: "int \<Rightarrow> rand \<Rightarrow> session \<Rightarrow> session" where
  "HandleCorrect = handleAnswer True"

definition HandleIncorrect :: "int \<Rightarrow> rand \<Rightarrow> session \<Rightarrow> session" where
  "HandleIncorrect = handleAnswer False"


text \<open>The records such a run makes while the active card stays \<open>flashcard_value s\<close>.\<close>

definition answer_records :: "session \<Rightarrow> (bool \<times> int) list \<Rightarrow> HistoryRecord list" where
  "answer_records s calls =
     map (\<lambda>(correct, now).
            \<lparr>flashcard = flashcard_value s, isCorrect = correct, timestamp = now\<rparr>) calls"

subsection \<open>JSON text\<close>

text \<open>
  \<^verbatim>\<open>JSON.parse\<close> and \<^verbatim>\<open>JSON.stringify\<close> are the platform's; the model follows the JSON
  grammar of ECMA-404. A number keeps its lexeme. A string is the list of its bytes:
  a \<^verbatim>\<open>\uXXXX\<close> escape above 7F becomes the bytes of its UTF-8 encoding.
\<close>

datatype json =
  JNull
| JBool bool
| JNumber string
| JString string
| JArray "json list"
| JObject "(string \<times> json) list"

datatype token =
  LBrace | RBrace | LBracket | RBracket | Comma | Colon | Scalar json

definition is_ws :: "char \<Rightarrow> bool" where
  "is_ws c = (c = CHR '' '' \<or> c = CHR 0x09 \<or> c = CHR 0x0A \<or> c = CHR 0x0D)"

definition is_digit :: "char \<Rightarrow> bool" where
  "is_digit c = (48 \<le> (of_char c :: nat) \<and> (of_char c :: nat) \<le> 57)"

definition hex_digit :: "char \<Rightarrow> nat option" where
  "hex_digit c =
     (let n = (of_char c :: nat) in
      if 48 \<le> n \<and> n \<le> 57 then Some (n - 48)
      else if 97 \<le> n \<and> n \<le> 102 then Some (n - 87)
      else if 65 \<le> n \<and> n \<le> 70 then Some (n - 55)
      else None)"

definition utf8 :: "nat \<Rightarrow> string" where
  "utf8 n =
     (if n < 128 then [char_of n]
      else if n < 2048 then [char_of (192 + n div 64), char_of (128 + n mod 64)]
      else [char_of (224 + n div 4096), char_of (128 + n div 64 mod 64),
            char_of (128 + n mod 64)])"

definition unescape :: "char \<Rightarrow> char option" where
  "unescape c =
     (if c = CHR 0x22 \<or> c = CHR 0x5C \<or> c = CHR ''/'' then Some c
      else if c = CHR ''b'' then Some (CHR 0x08)
      else if c = CHR ''f'' then Some (CHR 0x0C)
      else if c = CHR ''n'' then Some (CHR 0x0A)
      else if c = CHR ''r'' then Some (CHR 0x0D)
      else if c = CHR ''t'' then Some (CHR 0x09)
      else None)"

text \<open>
  The characters after an opening quote: the decoded string and the number of characters
  read, the closing quote among them.
\<close>

datatype string_mode = Plain | Escape | Hex nat nat

definition read_more :: "string \<Rightarrow> (string \<times> nat) option \<Rightarrow> (string \<times> nat) option" where
  "read_more pre rest = map_option (\<lambda>(text, n). (pre @ text, Suc n)) rest"

fun scan_string :: "string_mode \<Rightarrow> string \<Rightarrow> (string \<times> nat) option" where
  "scan_string m [] = None"
| "scan_string Plain (c # cs) =
     (if c = CHR 0x22 then Some ([], 1)
      else if c = CHR 0x5C then read_more [] (scan_string Escape cs)
      else if (of_char c :: nat) < 32 then None
      else read_more [c] (scan_string Plain cs))"
| "scan_string Escape (c # cs) =
     (if c = CHR ''u'' then read_more [] (scan_string (Hex 4 0) cs)
      else (case unescape c of
              None \<Rightarrow> None
            | Some d \<Rightarrow> read_more [d] (scan_string Plain cs)))"
| "scan_string (Hex k n) (c # cs) =
     (case hex_digit c of
        None \<Rightarrow> None
      | Some h \<Rightarrow>
          (if k \<le> 1 then read_more (utf8 (16 * n + h)) (scan_string Plain cs)
           else read_more [] (scan_string (Hex (k - 1) (16 * n + h)) cs)))"

text \<open>
  The lexeme of the number a text starts with:
  \<^verbatim>\<open>-? (0 | [1-9][0-9]*) (. [0-9]+)? ([eE] [+-]? [0-9]+)?\<close>.
\<close>

definition scan_int :: "string \<Rightarrow> string option" where
  "scan_int cs =
     (case cs of
        [] \<Rightarrow> None
      | c # r \<Rightarrow>
          (if c = CHR ''0'' then Some [c]
           else if is_digit c then Some (c # takeWhile is_digit r)
           else None))"

definition scan_frac :: "string \<Rightarrow> string option" where
  "scan_frac cs =
     (case cs of
        [] \<Rightarrow> Some []
      | c # r \<Rightarrow>
          (if c = CHR ''.'' then
             (if takeWhile is_digit r = [] then None else Some (c # takeWhile is_digit r))
           else Some []))"

definition scan_exp :: "string \<Rightarrow> string option" where
  "scan_exp cs =
     (case cs of
        [] \<Rightarrow> Some []
      | c # r \<Rightarrow>
          (if c = CHR ''e'' \<or> c = CHR ''E'' then
             (let sign = (case r of
                            [] \<Rightarrow> []
                          | d # _ \<Rightarrow> if d = CHR ''+'' \<or> d = CHR ''-'' then [d] else []);
                  ds = takeWhile is_digit (drop (length sign) r)
              in if ds = [] then None else Some (c # sign @ ds))
           else Some []))"

definition scan_number :: "string \<Rightarrow> string option" where
  "scan_number cs =
     (let sign = (case cs of [] \<Rightarrow> [] | c # _ \<Rightarrow> if c = CHR ''-'' then [c] else []) in
      case scan_int (drop (length sign) cs) of
        None \<Rightarrow> None
      | Some ip \<Rightarrow>
          (case scan_frac (drop (length (sign @ ip)) cs) of
             None \<Rightarrow> None
           | Some fp \<Rightarrow>
               (case scan_exp (drop (length (sign @ ip @ fp)) cs) of
                  None \<Rightarrow> None
                | Some ep \<Rightarrow> Some (sign @ ip @ fp @ ep))))"

definition punctuation :: "char \<Rightarrow> token option" where
  "punctuation c =
     (if c = CHR ''{'' then Some LBrace
      else if c = CHR ''}'' then Some RBrace
      else if c = CHR ''['' then Some LBracket
      else if c = CHR '']'' then Some RBracket
      else if c = CHR '','' then Some Comma
      else if c = CHR '':'' then Some Colon
      else None)"

fun tokenize :: "string \<Rightarrow> token list option" where
  "tokenize [] = Some []"
| "tokenize (c # cs) =
     (if is_ws c then tokenize cs
      else if punctuation c \<noteq> None then map_option ((#) (the (punctuation c))) (tokenize cs)
      else if c = CHR 0x22 then
        (case scan_string Plain cs of
           None \<Rightarrow> None
         | Some (text, n) \<Rightarrow> map_option ((#) (Scalar (JString text))) (tokenize (drop n cs)))
      else if take 4 (c # cs) = ''true'' then
        map_option ((#) (Scalar (JBool True))) (tokenize (drop 3 cs))
      else if take 5 (c # cs) = ''false'' then
        map_option ((#) (Scalar (JBool False))) (tokenize (drop 4 cs))
      else if take 4 (c # cs) = ''null'' then
        map_option ((#) (Scalar JNull)) (tokenize (drop 3 cs))
      else
        (case scan_number (c # cs) of
           None \<Rightarrow> None
         | Some lexeme \<Rightarrow>
             map_option ((#) (Scalar (JNumber lexeme))) (tokenize (drop (length lexeme - 1) cs))))"

text \<open>
  The parser reads the tokens with a stack of the arrays and objects that are still open,
  each with what it holds so far (newest first), an object also with a key that waits for
  its value.
\<close>

datatype frame = InArray "json list" | InObject "(string \<times> json) list" "string option"

datatype expect = Value | ValueOrClose | KeyOrClose | Key | ColonNext | CommaOrClose | Done

type_synonym parser = "frame list \<times> expect \<times> json option"

fun push_value :: "json \<Rightarrow> frame list \<Rightarrow> parser option" where
  "push_value v [] = Some ([], Done, Some v)"
| "push_value v (InArray vs # st) = Some (InArray (v # vs) # st, CommaOrClose, None)"
| "push_value v (InObject ms (Some k) # st) =
     Some (InObject ((k, v) # ms) None # st, CommaOrClose, None)"
| "push_value v (InObject ms None # st) = None"

fun parse_step :: "token \<Rightarrow> parser \<Rightarrow> parser option" where
  "parse_step LBracket (st, e, res) =
     (if e = Value \<or> e = ValueOrClose then Some (InArray [] # st, ValueOrClose, None) else None)"
| "parse_step LBrace (st, e, res) =
     (if e = Value \<or> e = ValueOrClose then Some (InObject [] None # st, KeyOrClose, None)
      else None)"
| "parse_step RBracket (st, e, res) =
     (case st of
        InArray vs # st' \<Rightarrow>
          (if e = ValueOrClose \<or> e = CommaOrClose then push_value (JArray (rev vs)) st'
           else None)
      | _ \<Rightarrow> None)"
| "parse_step RBrace (st, e, res) =
     (case st of
        InObject ms None # st' \<Rightarrow>
          (if e = KeyOrClose \<or> e = CommaOrClose then push_value (JObject (rev ms)) st'
           else None)
      | _ \<Rightarrow> None)"
| "parse_step Comma (st, e, res) =
     (if e \<noteq> CommaOrClose then None
      else (case st of
              InArray vs # st' \<Rightarrow> Some (st, Value, None)
            | InObject ms k # st' \<Rightarrow> Some (st, Key, None)
            | [] \<Rightarrow> None))"
| "parse_step Colon (st, e, res) = (if e = ColonNext then Some (st, Value, None) else None)"
| "parse_step (Scalar v) (st, e, res) =
     (if e = Value \<or> e = ValueOrClose then push_value v st
      else if e = Key \<or> e = KeyOrClose then
        (case (v, st) of
           (JString k, InObject ms None # st') \<Rightarrow> Some (InObject ms (Some k) # st', ColonNext, None)
         | _ \<Rightarrow> None)
      else None)"

fun parse_tokens :: "token list \<Rightarrow> parser \<Rightarrow> json option" where
  "parse_tokens [] (st, e, res) = (if st = [] \<and> e = Done then res else None)"
| "parse_tokens (t # ts) p =
     (case parse_step t p of None \<Rightarrow> None | Some p' \<Rightarrow> parse_tokens ts p')"

text \<open>\<^verbatim>\<open>JSON.parse\<close>: \<open>None\<close> is the \<^verbatim>\<open>SyntaxError\<close> it throws.\<close>

definition JSON_parse :: "string \<Rightarrow> json option" where
  "JSON_parse text =
     (case tokenize text of None \<Rightarrow> None | Some ts \<Rightarrow> parse_tokens ts ([], Value, None))"

text \<open>
  \<^verbatim>\<open>JSON.stringify\<close> on the values the module hands it: an array of flashcards, and an
  array of history records.
\<close>

definition hex_char :: "nat \<Rightarrow> char" where
  "hex_char n = (if n < 10 then char_of (48 + n) else char_of (87 + n))"

definition quote_char :: "char \<Rightarrow> string" where
  "quote_char c =
     (if c = CHR 0x22 then [CHR 0x5C, CHR 0x22]
      else if c = CHR 0x5C then [CHR 0x5C, CHR 0x5C]
      else if c = CHR 0x08 then [CHR 0x5C, CHR ''b'']
      else if c = CHR 0x0C then [CHR 0x5C, CHR ''f'']
      else if c = CHR 0x0A then [CHR 0x5C, CHR ''n'']
      else if c = CHR 0x0D then [CHR 0x5C, CHR ''r'']
      else if c = CHR 0x09 then [CHR 0x5C, CHR ''t'']
      else if (of_char c :: nat) < 32 then
        [CHR 0x5C, CHR ''u'', CHR ''0'', CHR ''0'',
         hex_char (of_char c div 16), hex_char (of_char c mod 16)]
      else [c])"

definition quote :: "string \<Rightarrow> string" where
  "quote text = CHR 0x22 # concat (map quote_char text) @ [CHR 0x22]"

fun join :: "string list \<Rightarrow> string" where
  "join [] = []"
| "join [x] = x"
| "join (x # y # ys) = x @ CHR '','' # join (y # ys)"

subsection \<open>Stored values at their declared types\<close>

text \<open>
  \<^verbatim>\<open>JSON.parse\<close> returns \<^verbatim>\<open>any\<close>, and the module takes the value at a declared type
  without a check (\<^verbatim>\<open>as Flashcard[]\<close>). The model reads a parsed value at that type; a
  value that is not of the type has the outcome \<open>Untyped\<close>, about which the model says
  nothing. An object's property is its last member of that name. A flashcard is an
  object of the two string members \<^verbatim>\<open>imageSrc\<close> and \<^verbatim>\<open>name\<close> and no other, a history
  record one of the three members of the interface.
\<close>

datatype exn = SyntaxError | TypeError | Error string

datatype 'a outcome = Returns 'a | Throws exn | Untyped

definition field :: "string \<Rightarrow> (string \<times> json) list \<Rightarrow> json option" where
  "field k ms = map_of (rev ms) k"

fun as_string :: "json \<Rightarrow> string option" where
  "as_string (JString text) = Some text"
| "as_string _ = None"

text \<open>
  A timestamp is read from an integer lexeme, as \<^verbatim>\<open>JSON.stringify\<close> writes the value of
  \<^verbatim>\<open>Date.now()\<close>, within the range where a JavaScript number is exact.
\<close>

definition digits_value :: "string \<Rightarrow> nat" where
  "digits_value ds = foldl (\<lambda>n c. 10 * n + (of_char c - 48)) 0 ds"

definition integer_lexeme :: "string \<Rightarrow> int option" where
  "integer_lexeme lx =
     (let negative = (lx \<noteq> [] \<and> hd lx = CHR ''-'');
          ds = (if negative then tl lx else lx)
      in if ds \<noteq> [] \<and> list_all is_digit ds \<and> digits_value ds \<le> 2 ^ 53
         then Some (if negative then - int (digits_value ds) else int (digits_value ds))
         else None)"

fun as_Flashcard :: "json \<Rightarrow> Flashcard option" where
  "as_Flashcard (JObject ms) =
     (case (field ''imageSrc'' ms, field ''name'' ms) of
        (Some (JString src), Some (JString n)) \<Rightarrow>
          (if list_all (\<lambda>(k, v). k = ''imageSrc'' \<or> k = ''name'') ms
           then Some \<lparr>imageSrc = src, name = n\<rparr> else None)
      | _ \<Rightarrow> None)"
| "as_Flashcard _ = None"

fun as_Flashcards :: "json \<Rightarrow> Flashcard list option" where
  "as_Flashcards (JArray vs) = those (map as_Flashcard vs)"
| "as_Flashcards _ = None"

fun as_HistoryRecord :: "json \<Rightarrow> HistoryRecord option" where
  "as_HistoryRecord (JObject ms) =
     (case (field ''flashcard'' ms, field ''isCorrect'' ms, field ''timestamp'' ms) of
        (Some c, Some (JBool b), Some (JNumber lx)) \<Rightarrow>
          (case (as_Flashcard c, integer_lexeme lx) of
             (Some fc, Some t) \<Rightarrow>
               (if list_all (\<lambda>(k, v). k = ''flashcard'' \<or> k = ''isCorrect'' \<or> k = ''timestamp'') ms
                then Some \<lparr>flashcard = fc, isCorrect = b, timestamp = t\<rparr> else None)
           | _ \<Rightarrow> None)
      | _ \<Rightarrow> None)"
| "as_HistoryRecord _ = None"

fun as_HistoryRecords :: "json \<Rightarrow> HistoryRecord list option" where
  "as_HistoryRecords (JArray vs) = those (map as_HistoryRecord vs)"
| "as_HistoryRecords _ = None"

definition stringify_Flashcard :: "Flashcard \<Rightarrow> string" where
  "stringify_Flashcard c =
     ''{'' @ quote ''imageSrc'' @ '':'' @ quote (imageSrc c) @ '','' @
     quote ''name'' @ '':'' @ quote (name c) @ ''}''"

definition stringify_deck :: "Flashcard list \<Rightarrow> string" where
  "stringify_deck decks = ''['' @ join (map stringify_Flashcard decks) @ '']''"

subsection \<open>The deck cache and the stored history\<close>

text \<open>Lines 34-37. The store is taken to have room for the value.\<close>

definition saveDeckCache :: "Flashcard list \<Rightarrow> session \<Rightarrow> session" where
  "saveDeckCache decks s =
     s\<lparr>localStorage := (localStorage s)(deckCacheKey \<mapsto> stringify_deck decks)\<rparr>"

text \<open>
  Lines 38-52. \<^verbatim>\<open>getItem\<close> gives \<^verbatim>\<open>null\<close> for a missing key; \<^verbatim>\<open>if (cache)\<close> is false
  for \<^verbatim>\<open>null\<close> and for the empty string. The result \<open>None\<close> is the \<^verbatim>\<open>null\<close> the function
  returns, which is also what the stored text \<^verbatim>\<open>null\<close> parses to.
\<close>

definition LoadDeckfromCache :: "session \<Rightarrow> (Flashcard list option \<times> session) outcome" where
  "LoadDeckfromCache s =
     (case localStorage s deckCacheKey of
        None \<Rightarrow> Returns (None, s)
      | Some cache \<Rightarrow>
          (if cache = [] then Returns (None, s)
           else (case JSON_parse cache of
                   Some parsedCache \<Rightarrow>
                     (if parsedCache = JNull then Returns (None, s)
                      else (case as_Flashcards parsedCache of
                              Some deck \<Rightarrow> Returns (Some deck, s)
                            | None \<Rightarrow> Untyped))
                 | None \<Rightarrow>
                     Returns (None, s\<lparr>localStorage := (localStorage s)(deckCacheKey := None)\<rparr>))))"

text \<open>Lines 131-136: the parse is not guarded, so its \<^verbatim>\<open>SyntaxError\<close> reaches the caller.\<close>

definition LoadHistoryfromLocal :: "session \<Rightarrow> session outcome" where
  "LoadHistoryfromLocal s =
     (case localStorage s historyKey of
        None \<Rightarrow> Returns s
      | Some historyString \<Rightarrow>
          (if historyString = [] then Returns s
           else (case JSON_parse historyString of
                   None \<Rightarrow> Throws SyntaxError
                 | Some v \<Rightarrow>
                     (case as_HistoryRecords v of
                        Some records \<Rightarrow> Returns (s\<lparr>historyRecords := records\<rparr>)
                      | None \<Rightarrow> Untyped))))"

subsection \<open>Loading the deck over the network\<close>

text \<open>
  \<^verbatim>\<open>fetch\<close> is a function of the address: \<open>None\<close> where the promise rejects, else the
  response with its \<^verbatim>\<open>ok\<close> flag, its status text, the \<^verbatim>\<open>type\<close> of its blob and its body.
\<close>

record response =
  ok :: bool
  statusText :: string
  blob_type :: string
  body :: string

type_synonym network = "string \<Rightarrow> response option"

text \<open>Lines 22-33. A throw leaves the deck as it was.\<close>

definition LoadImageBySrc :: "network \<Rightarrow> string \<Rightarrow> string \<Rightarrow> session \<Rightarrow> exn + session" where
  "LoadImageBySrc net src itemName s =
     (case net src of
        None \<Rightarrow> Inl TypeError
      | Some response \<Rightarrow>
          (if \<not> ok response then
             Inl (Error (''Failed to load image: '' @ src @ '': '' @ statusText response))
           else if blob_type response = ''image/jpeg'' \<or> blob_type response = ''image/png'' then
             Inr (s\<lparr>currentDeck := currentDeck s @ [\<lparr>imageSrc = src, name = itemName\<rparr>]\<rparr>)
           else Inl (Error ''Not a jpeg or png image'')))"

text \<open>Lines 59-71: every throw inside the \<^verbatim>\<open>try\<close> ends in the empty list.\<close>

definition config_itemNames :: "network \<Rightarrow> string \<Rightarrow> string list outcome" where
  "config_itemNames net photoFolderPath =
     (case net (photoFolderPath @ ''deck-config.json'') of
        None \<Rightarrow> Returns []
      | Some configResponse \<Rightarrow>
          (case JSON_parse (body configResponse) of
             None \<Rightarrow> Returns []
           | Some (JObject ms) \<Rightarrow>
               (case field ''itemNames'' ms of
                  Some (JArray vs) \<Rightarrow>
                    (case those (map as_string vs) of
                       Some itemNames \<Rightarrow> Returns itemNames
                     | None \<Rightarrow> Untyped)
                | _ \<Rightarrow> Returns [])
           | Some _ \<Rightarrow> Returns []))"

text \<open>The locals of the loop over one identifier (lines 80-122).\<close>

record probing =
  session_of :: session
  count :: nat
  imageIndex :: nat
  pngFlag :: bool
  jpgFlag :: bool

text \<open>One \<^verbatim>\<open>try\<close>/\<^verbatim>\<open>catch\<close> around a load: the session, the count, and whether it threw.\<close>

definition attempt ::
  "network \<Rightarrow> string \<Rightarrow> string \<Rightarrow> session \<times> nat \<Rightarrow> session \<times> nat \<times> bool" where
  "attempt net src itemName sc =
     (case LoadImageBySrc net src itemName (fst sc) of
        Inr s' \<Rightarrow> (s', Suc (snd sc), False)
      | Inl e \<Rightarrow> (fst sc, snd sc, True))"

text \<open>The text of a number in a template string.\<close>

fun show_nat :: "nat \<Rightarrow> string" where
  "show_nat n =
     (if n < 10 then [char_of (48 + n)] else show_nat (n div 10) @ [char_of (48 + n mod 10)])"

declare show_nat.simps [simp del]

text \<open>The body of the \<^verbatim>\<open>while\<close> loop down to the test before \<^verbatim>\<open>break\<close> (lines 104-119).\<close>

definition probe_body :: "network \<Rightarrow> string \<Rightarrow> string \<Rightarrow> probing \<Rightarrow> probing" where
  "probe_body net photoFolderPath itemName p =
     (let imagePngSrc = photoFolderPath @ itemName @ show_nat (imageIndex p) @ ''.png'';
          a = attempt net imagePngSrc itemName (session_of p, count p);
          imageJpgSrc = photoFolderPath @ itemName @ show_nat (imageIndex p) @ ''.jpg'';
          b = attempt net imageJpgSrc itemName (fst a, fst (snd a))
      in p\<lparr>session_of := fst b, count := fst (snd b),
            pngFlag := (pngFlag p \<or> snd (snd a)), jpgFlag := (jpgFlag p \<or> snd (snd b))\<rparr>)"

lemma imageIndex_probe_body [simp]:
  "imageIndex (probe_body net photoFolderPath itemName p) = imageIndex p"
  by (simp add: probe_body_def Let_def)

text \<open>The \<^verbatim>\<open>while\<close> loop of lines 103-122; the result holds the locals at its exit.\<close>

function probe :: "network \<Rightarrow> string \<Rightarrow> string \<Rightarrow> probing \<Rightarrow> probing" where
  "probe net photoFolderPath itemName p =
     (if imageIndex p < 10 then
        (let p' = probe_body net photoFolderPath itemName p in
         if pngFlag p' \<and> jpgFlag p' then p'
         else probe net photoFolderPath itemName (p'\<lparr>imageIndex := imageIndex p' + 1\<rparr>))
      else p)"
  by pat_completeness auto
termination
  by (relation "measure (\<lambda>(net, photoFolderPath, itemName, p). 10 - imageIndex p)") auto

declare probe.simps [simp del]

text \<open>The locals at the entry of the \<^verbatim>\<open>while\<close> loop (lines 100-102).\<close>

definition probe_start :: "session \<Rightarrow> nat \<Rightarrow> probing" where
  "probe_start s n =
     \<lparr>session_of = s, count = n, imageIndex = 1, pngFlag = False, jpgFlag = False\<rparr>"

text \<open>
  One round of the \<^verbatim>\<open>for\<close> loop (lines 77-124). The test \<^verbatim>\<open>!currentDeck.value\<close> is
  false of every array.
\<close>

definition load_item :: "network \<Rightarrow> string \<Rightarrow> string \<Rightarrow> session \<Rightarrow> session" where
  "load_item net photoFolderPath itemName s =
     (let a = attempt net (photoFolderPath @ itemName @ ''.png'') itemName (s, 0);
          b = attempt net (photoFolderPath @ itemName @ ''.jpg'') itemName (fst a, fst (snd a));
          p = probe net photoFolderPath itemName (probe_start (fst b) (fst (snd b)))
      in if count p > 0 then (session_of p)\<lparr>loadFinished := True\<rparr> else session_of p)"

text \<open>
  Line 75. The sort with a random comparator leaves some permutation of the list; which
  one depends on the random numbers and on the engine's sorting algorithm. The model
  takes the choices as the argument \<open>picks\<close>: each element goes in at the picked place
  among the elements after it, so that the result is a permutation whatever the picks.
\<close>

fun shuffle_by :: "nat list \<Rightarrow> 'a list \<Rightarrow> 'a list" where
  "shuffle_by picks [] = []"
| "shuffle_by picks (x # xs) =
     (let ys = shuffle_by (tl picks) xs;
          k = (case picks of [] \<Rightarrow> 0 | k # _ \<Rightarrow> k mod (length ys + 1))
      in take k ys @ x # drop k ys)"

text \<open>Lines 54-129. \<open>base\<close> is \<^verbatim>\<open>import.meta.env.BASE_URL\<close>.\<close>

definition LoadDeckfromLocal :: "network \<Rightarrow> string \<Rightarrow> nat list \<Rightarrow> session \<Rightarrow> session outcome" where
  "LoadDeckfromLocal net base picks s =
     (let photoFolderPath = base @ ''photo/'' in
      case config_itemNames net photoFolderPath of
        Returns itemNames \<Rightarrow>
          (let s' = foldl (\<lambda>t itemName. load_item net photoFolderPath itemName t)
                      s (shuffle_by picks itemNames)
           in Returns (saveDeckCache (currentDeck s') s'))
      | Throws e \<Rightarrow> Throws e
      | Untyped \<Rightarrow> Untyped)"

subsection \<open>The session initializer\<close>

text \<open>
  Lines 151-174, up to the point where the call returns. On a cache miss
  \<^verbatim>\<open>LoadDeckfromLocal()\<close> is started and not awaited: the second component of the result
  tells whether that remote load was started. \<^verbatim>\<open>watch\<close> with \<^verbatim>\<open>immediate\<close> runs its
  callback once at once, on the flag's value of that moment.
\<close>

definition useFlashcard :: "rand \<Rightarrow> session \<Rightarrow> (session \<times> bool) outcome" where
  "useFlashcard r s =
     (if isInitialized s then Returns (s, False)
      else (case LoadHistoryfromLocal s of
              Throws e \<Rightarrow> Throws e
            | Untyped \<Rightarrow> Untyped
            | Returns s1 \<Rightarrow>
                (case LoadDeckfromCache s1 of
                   Throws e \<Rightarrow> Throws e
                 | Untyped \<Rightarrow> Untyped
                 | Returns (Some cachedDeck, s2) \<Rightarrow>
                     Returns ((initFlashcard r (s2\<lparr>currentDeck := cachedDeck, loadFinished := True\<rparr>))
                                \<lparr>isInitialized := True\<rparr>, False)
                 | Returns (None, s2) \<Rightarrow>
                     Returns ((if loadFinished s2 then initFlashcard r s2 else s2)
                                \<lparr>isInitialized := True\<rparr>, True))))"

subsection \<open>Notions used by the properties\<close>

text \<open>
  A fetched image counts when its response is \<^verbatim>\<open>ok\<close> and the blob's type is one of the
  two image types: the condition under which \<^verbatim>\<open>LoadImageBySrc\<close> does not throw.
\<close>

definition image_accepted :: "network \<Rightarrow> string \<Rightarrow> bool" where
  "image_accepted net src =
     (case net src of
        None \<Rightarrow> False
      | Some response \<Rightarrow>
          ok response \<and> (blob_type response = ''image/jpeg'' \<or> blob_type response = ''image/png''))"

text \<open>The two fetches of the indexed probe at index \<open>i\<close>, failing.\<close>

definition png_fails :: "network \<Rightarrow> string \<Rightarrow> string \<Rightarrow> nat \<Rightarrow> bool" where
  "png_fails net photoFolderPath itemName i =
     (\<not> image_accepted net (photoFolderPath @ itemName @ show_nat i @ ''.png''))"

definition jpg_fails :: "network \<Rightarrow> string \<Rightarrow> string \<Rightarrow> nat \<Rightarrow> bool" where
  "jpg_fails net photoFolderPath itemName i =
     (\<not> image_accepted net (photoFolderPath @ itemName @ show_nat i @ ''.jpg''))"

text \<open>A parsed config that is an object whose \<^verbatim>\<open>itemNames\<close> is an array.\<close>

fun has_itemNames_array :: "json \<Rightarrow> bool" where
  "has_itemNames_array (JObject ms) =
     (case field ''itemNames'' ms of Some (JArray vs) \<Rightarrow> True | _ \<Rightarrow> False)"
| "has_itemNames_array _ = False"

text \<open>
  By which index \<open>m\<close> both flags are set, for a loop that is at the locals \<open>p\<close>: a flag
  is set already, or its fetch fails at an index from the current one up to \<open>m\<close>.
\<close>

definition both_failed_by :: "network \<Rightarrow> string \<Rightarrow> string \<Rightarrow> probing \<Rightarrow> nat \<Rightarrow> bool" where
  "both_failed_by net photoFolderPath itemName p m =
     ((pngFlag p \<or>
         (\<exists>j. imageIndex p \<le> j \<and> j \<le> m \<and> png_fails net photoFolderPath itemName j)) \<and>
      (jpgFlag p \<or>
         (\<exists>k. imageIndex p \<le> k \<and> k \<le> m \<and> jpg_fails net photoFolderPath itemName k)))"

text \<open>That every card of a session's deck is a card of \<open>deck\<close> or comes from an image.\<close>

definition from_images :: "network \<Rightarrow> Flashcard list \<Rightarrow> session \<Rightarrow> bool" where
  "from_images net deck t =
     (\<forall>c \<in> set (currentDeck t). c \<in> set deck \<or> image_accepted net (imageSrc c))"

text \<open>Networks for the examples: a table of addresses, every other address a 404 page.\<close>

definition not_found :: response where
  "not_found = \<lparr>ok = False, statusText = ''Not Found'', blob_type = ''text/html'', body = ''''\<rparr>"

definition served :: "string \<Rightarrow> string \<Rightarrow> response" where
  "served type text = \<lparr>ok = True, statusText = ''OK'', blob_type = type, body = text\<rparr>"

definition serving :: "(string \<times> response) list \<Rightarrow> network" where
  "serving table src = (case map_of table src of Some r \<Rightarrow> Some r | None \<Rightarrow> Some not_found)"

definition all_images_but :: "string list \<Rightarrow> network" where
  "all_images_but missing src =
     (if src \<in> set missing then Some not_found else Some (served ''image/png'' ''''))"

definition offline :: network where
  "offline src = None"

definition cat_config :: string where
  "cat_config = ''{'' @ quote ''itemNames'' @ '':['' @ quote ''cat'' @ '']}''"

definition cat_site :: network where
  "cat_site =
     serving [(''/photo/deck-config.json'', served ''application/json'' cat_config),
              (''/photo/cat.png'', served ''image/png'' ''''),
              (''/photo/cat.jpg'', served ''text/html'' '''')]"

text \<open>A deck of three cards for the examples.\<close>

definition three_cards :: "Flashcard list" where
  "three_cards =
     [\<lparr>imageSrc = ''a.png'', name = ''a''\<rparr>, \<lparr>imageSrc = ''b.jpg'', name = ''b''\<rparr>,
      \<lparr>imageSrc = ''c.png'', name = ''c''\<rparr>]"






section \<open>Properties\<close>

subsection \<open>The random index\<close>

lemma bit_length_upper: "n < 2 ^ bit_length n"
proof (induction n rule: bit_length.induct)
  case (1 n)
  show ?case
  proof (cases "n = 0")
    case True
    then show ?thesis by (simp add: bit_length.simps [of n])
  next
    case False
    with 1 have "n div 2 < 2 ^ bit_length (n div 2)" by simp
    then have "n < 2 * 2 ^ bit_length (n div 2)" by linarith
    then show ?thesis using False by (simp add: bit_length.simps [of n])
  qed
qed

lemma bit_length_Suc_0: "bit_length (Suc 0) = 1"
  by (simp add: bit_length.simps [of "Suc 0"] bit_length.simps [of 0])

lemma bit_length_lower: "0 < n \<Longrightarrow> 2 ^ (bit_length n - 1) \<le> n"
proof (induction n rule: bit_length.induct)
  case (1 n)
  show ?case
  proof (cases "n div 2 = 0")
    case True
    with 1(2) have "n = Suc 0" by linarith
    then show ?thesis by (simp add: bit_length_Suc_0)
  next
    case False
    then have pos: "0 < n div 2" by simp
    with 1 have ih: "2 ^ (bit_length (n div 2) - 1) \<le> n div 2" by simp
    have "0 < bit_length (n div 2)" using pos by (simp add: bit_length.simps [of "n div 2"])
    then obtain k where k: "bit_length (n div 2) = Suc k"
      by (cases "bit_length (n div 2)") simp_all
    have "2 * 2 ^ k \<le> 2 * (n div 2)" using ih by (simp add: k)
    also have "\<dots> \<le> n" by simp
    finally have "2 ^ bit_length (n div 2) \<le> n" by (simp add: k)
    then show ?thesis using 1(2) by (simp add: bit_length.simps [of n])
  qed
qed

lemma round_up_or_down:
  assumes "0 < sh"
  shows "(if 2 ^ (sh - 1) < q mod 2 ^ sh \<or> (q mod 2 ^ sh = 2 ^ (sh - 1) \<and> odd (q div 2 ^ sh))
          then q div 2 ^ sh + 1 else q div 2 ^ sh) * 2 ^ sh \<le> (q::nat) + 2 ^ (sh - 1)"
proof -
  define d where "d = (2::nat) ^ (sh - 1)"
  define hi where "hi = q div 2 ^ sh"
  define lo where "lo = q mod 2 ^ sh"
  have two: "(2::nat) ^ sh = d + d"
    using assms by (cases sh) (simp_all add: d_def)
  have "q = q div 2 ^ sh * 2 ^ sh + q mod 2 ^ sh"
    by (rule div_mult_mod_eq [symmetric])
  then have q: "q = hi * (d + d) + lo"
    by (simp only: hi_def lo_def two)
  have "(if d < lo \<or> (lo = d \<and> odd hi) then hi + 1 else hi) * (d + d) \<le> q + d"
  proof (cases "d < lo \<or> (lo = d \<and> odd hi)")
    case True
    then have "d \<le> lo" by auto
    then have "hi * (d + d) + (d + d) \<le> q + d" using q by linarith
    moreover have "(hi + 1) * (d + d) = hi * (d + d) + (d + d)"
      by (simp only: add_mult_distrib mult_1)
    ultimately have "(hi + 1) * (d + d) \<le> q + d" by (simp only:)
    then show ?thesis using True by (simp only: if_True)
  next
    case False
    have "hi * (d + d) \<le> q + d" using q by linarith
    then show ?thesis using False by (simp only: if_False)
  qed
  then show ?thesis
    by (simp only: hi_def lo_def two d_def)
qed

lemma round_to_53_error: "2 ^ 53 * round_to_53 q \<le> 2 ^ 53 * q + q"
proof (cases "q < 2 ^ 53")
  case True
  then have "round_to_53 q = q" by (simp only: round_to_53_def if_True)
  then show ?thesis by (simp only: le_add1)
next
  case False
  define p where "p = (2::nat) ^ 53"
  define sh where "sh = bit_length q - 53"
  have pq: "p \<le> q" using False by (simp only: p_def not_less)
  have "q < 2 ^ bit_length q" by (rule bit_length_upper)
  with pq have "p < 2 ^ bit_length q" by (rule le_less_trans)
  then have "53 < bit_length q" by (simp only: p_def power_strict_increasing_iff)
  then have sh: "bit_length q - 1 = (sh - 1) + 53" "0 < sh" by (simp_all add: sh_def)
  have "0 < p" by (simp only: p_def zero_less_power zero_less_numeral)
  with pq have pos: "0 < q" by linarith
  have "(2::nat) ^ (sh - 1) * p = 2 ^ (bit_length q - 1)"
    by (simp only: sh(1) p_def power_add)
  also have "\<dots> \<le> q" using pos by (rule bit_length_lower)
  finally have half: "(2::nat) ^ (sh - 1) * p \<le> q" .
  have "round_to_53 q =
      (if 2 ^ (sh - 1) < q mod 2 ^ sh \<or> (q mod 2 ^ sh = 2 ^ (sh - 1) \<and> odd (q div 2 ^ sh))
       then q div 2 ^ sh + 1 else q div 2 ^ sh) * 2 ^ sh"
    using False by (simp only: round_to_53_def Let_def sh_def if_False)
  also have "\<dots> \<le> q + 2 ^ (sh - 1)"
    using sh(2) by (rule round_up_or_down)
  finally have "round_to_53 q \<le> q + 2 ^ (sh - 1)" .
  then have "p * round_to_53 q \<le> p * (q + 2 ^ (sh - 1))"
    by (rule mult_le_mono2)
  also have "\<dots> = p * q + 2 ^ (sh - 1) * p"
    by (simp only: distrib_left mult.commute)
  also have "\<dots> \<le> p * q + q" using half by (rule add_left_mono)
  finally show ?thesis by (simp only: p_def)
qed

lemma is_random_below_one:
  assumes "is_random r"
  shows "2 ^ 53 * mantissa r \<le> (2 ^ 53 - 1) * 2 ^ scale r"
proof -
  define p where "p = (2::nat) ^ 53"
  define m where "m = mantissa r"
  define w where "w = (2::nat) ^ scale r"
  have m: "m < p" "m < w" using assms by (simp_all add: is_random_def p_def m_def w_def)
  have p: "0 < p" by (simp add: p_def)
  have "p * m + w \<le> p * w"
  proof (cases "w \<le> p")
    case True
    have "m + 1 \<le> w" using m(2) by simp
    then have "p * (m + 1) \<le> p * w" by (rule mult_le_mono2)
    then have "p * m + p \<le> p * w" by (simp only: distrib_left mult_1_right)
    then show ?thesis using True by linarith
  next
    case False
    then have "p < w" by simp
    have "m + 1 \<le> p" using m(1) by simp
    then have "w * (m + 1) \<le> w * p" by (rule mult_le_mono2)
    then have "w * m + w \<le> p * w" by (simp only: distrib_left mult_1_right mult.commute)
    moreover have "p * m \<le> w * m" using \<open>p < w\<close> by simp
    ultimately show ?thesis by linarith
  qed
  then have "p * m \<le> p * w - w" by linarith
  also have "\<dots> = (p - 1) * w" by (simp add: diff_mult_distrib)
  finally show ?thesis by (simp only: p_def m_def w_def)
qed

lemma random_index_range:
  assumes "is_random r" and "0 < n"
  shows "0 \<le> random_index r n \<and> random_index r n < int n"
proof -
  define p where "p = (2::nat) ^ 53"
  define m where "m = mantissa r"
  define w where "w = (2::nat) ^ scale r"
  define q' where "q' = round_to_53 (m * n)"
  have p: "0 < p" by (simp add: p_def)
  have w: "0 < w" by (simp add: w_def)
  have a: "p * q' \<le> (p + 1) * (m * n)"
    using round_to_53_error [of "m * n"] by (simp add: p_def q'_def)
  have b: "p * m \<le> (p - 1) * w"
    using is_random_below_one [OF assms(1)] by (simp only: p_def m_def w_def)
  have "p * (p * q') \<le> p * ((p + 1) * (m * n))" using a by (rule mult_le_mono2)
  also have "\<dots> = ((p + 1) * n) * (p * m)" by (simp only: mult_ac)
  also have "\<dots> \<le> ((p + 1) * n) * ((p - 1) * w)" using b by (rule mult_le_mono2)
  also have "\<dots> = ((p + 1) * (p - 1)) * (n * w)" by (simp only: mult_ac)
  also have "\<dots> < (p * p) * (n * w)"
  proof (rule mult_strict_right_mono)
    have "(p + 1) * (p - 1) = p * p - 1"
      using p by (cases p) (simp_all add: algebra_simps)
    then show "(p + 1) * (p - 1) < p * p" using p by simp
    show "0 < n * w" using assms(2) w by simp
  qed
  finally have "p * p * q' < p * p * (n * w)" by (simp add: mult.assoc)
  then have "q' < n * w" by simp
  then have "q' div w < n" by (rule less_mult_imp_div_less)
  then show ?thesis by (simp add: random_index_def q'_def m_def w_def)
qed

text \<open>
  The double \<open>0.6666666666666666\<close> times 3 is \<open>2 - 2 ^ -53\<close> exactly, and rounds to 2.
\<close>

lemma bit_length_example: "bit_length 18014398509481983 = 54"
  by (simp add: bit_length.simps)

lemma random_index_rounds_up:
  "random_index \<lparr>mantissa = 6004799503160661, scale = 53\<rparr> 3 = 2"
  by (simp add: random_index_def round_to_53_def bit_length_example Let_def)


subsection \<open>The shuffle is a rearrangement\<close>

lemma count_list_shuffle_by: "count_list (shuffle_by picks xs) x = count_list xs x"
proof (induction xs arbitrary: picks)
  case Nil
  show ?case by simp
next
  case (Cons y ys)
  define zs where "zs = shuffle_by (tl picks) ys"
  define k where "k = (case picks of [] \<Rightarrow> 0 | k # _ \<Rightarrow> k mod (length zs + 1))"
  have "count_list (take k zs @ drop k zs) x = count_list ys x"
    by (simp add: zs_def Cons.IH)
  then have "count_list (take k zs) x + count_list (drop k zs) x = count_list ys x"
    by (simp only: count_list_append)
  then show ?case
    by (simp add: Let_def zs_def [symmetric] k_def [symmetric] count_list_append)
qed

subsection \<open>The bounded history\<close>

lemma flashcard_value_AddHistoryRecord [simp]:
  "flashcard_value (AddHistoryRecord correct now s) = flashcard_value s"
  by (simp add: AddHistoryRecord_def Let_def)


lemma answer_records_AddHistoryRecord [simp]:
  "answer_records (AddHistoryRecord correct now s) calls = answer_records s calls"
  by (simp add: answer_records_def)


lemma length_answer_records [simp]: "length (answer_records s calls) = length calls"
  by (simp add: answer_records_def)





subsection \<open>Answering a card\<close>


text \<open>
  Claim C7. On an empty deck \<^verbatim>\<open>NextCard\<close> makes the active card the placeholder, both
  fields the empty string, and resets the answer-revealed flag.
\<close>

theorem NextCard_empty_deck:
  "currentDeck s = [] \<Longrightarrow>
     flashcard_value (NextCard r s) = \<lparr>imageSrc = '''', name = ''''\<rparr> \<and>
     imageSrc (flashcard_value (NextCard r s)) = '''' \<and>
     name (flashcard_value (NextCard r s)) = '''' \<and>
     showAnswer (NextCard r s) = False"
  by (auto simp: NextCard_def at_index_def Let_def)

theorem NextCard_empty_deck_witness:
  "currentDeck (initial_session Map.empty\<lparr>showAnswer := True\<rparr>) = [] \<and>
   flashcard_value (NextCard \<lparr>mantissa = 1, scale = 1\<rparr> (initial_session Map.empty\<lparr>showAnswer := True\<rparr>)) = \<lparr>imageSrc = '''', name = ''''\<rparr> \<and>
   showAnswer (NextCard \<lparr>mantissa = 1, scale = 1\<rparr> (initial_session Map.empty\<lparr>showAnswer := True\<rparr>)) = False"
  using NextCard_empty_deck [of "initial_session Map.empty\<lparr>showAnswer := True\<rparr>"
      "\<lparr>mantissa = 1, scale = 1\<rparr>"]
  by (simp add: initial_session_def)

subsection \<open>Starting a session from the cache\<close>

lemma JSON_parse_Nil: "JSON_parse [] = None"
  by (simp add: JSON_parse_def)

lemma JSON_parse_empty_array: "JSON_parse (stringify_deck []) = Some (JArray [])"
  by code_simp

lemma LoadHistoryfromLocal_Returns:
  "LoadHistoryfromLocal s = Returns s1 \<Longrightarrow> s1 = s\<lparr>historyRecords := historyRecords s1\<rparr>"
  by (auto simp: LoadHistoryfromLocal_def split: option.splits if_splits)

lemma LoadDeckfromCache_hit:
  assumes "localStorage s deckCacheKey = Some text" "JSON_parse text = Some v"
    "as_Flashcards v = Some deck"
  shows "LoadDeckfromCache s = Returns (Some deck, s)"
proof -
  have "text \<noteq> []" using assms(2) by (auto simp: JSON_parse_Nil)
  moreover have "v \<noteq> JNull" using assms(3) by auto
  ultimately show ?thesis using assms by (simp add: LoadDeckfromCache_def)
qed

lemma useFlashcard_cache_hit:
  assumes "\<not> isInitialized s" and "LoadHistoryfromLocal s = Returns s1"
    and "localStorage s deckCacheKey = Some text" and "JSON_parse text = Some v"
    and "as_Flashcards v = Some deck"
  shows "useFlashcard r s =
           Returns ((initFlashcard r (s1\<lparr>currentDeck := deck, loadFinished := True\<rparr>))
                      \<lparr>isInitialized := True\<rparr>, False)"
proof -
  have s1: "s1 = s\<lparr>historyRecords := historyRecords s1\<rparr>"
    using assms(2) by (rule LoadHistoryfromLocal_Returns)
  have st: "localStorage s1 deckCacheKey = Some text"
    by (subst s1) (simp add: assms(3))
  have hit: "LoadDeckfromCache s1 = Returns (Some deck, s1)"
    using st assms(4,5) by (rule LoadDeckfromCache_hit)
  show ?thesis
    using assms(1,2) hit by (simp add: useFlashcard_def)
qed

text \<open>
  Claim C4, amended. Where the store holds, under the deck key, the JSON text of a deck
  with at least one card, and the stored history loads, the first call of
  \<^verbatim>\<open>useFlashcard\<close> installs that deck, sets the load-finished flag, makes one of the deck's
  cards the active card, and starts no remote load. The card is the one at the index that
  the double arithmetic of \<^verbatim>\<open>Math.floor(Math.random() * length)\<close> gives, which lies in the
  deck for every double below 1.
\<close>

theorem cached_deck_init:
  assumes "\<not> isInitialized s" and "LoadHistoryfromLocal s = Returns s1"
    and "localStorage s deckCacheKey = Some text" and "JSON_parse text = Some v"
    and "as_Flashcards v = Some deck" and "deck \<noteq> []" and "is_random r"
  shows "useFlashcard r s =
           Returns (s1\<lparr>currentDeck := deck, loadFinished := True,
                      flashcard_value := deck ! nat (random_index r (length deck)),
                      isInitialized := True\<rparr>, False) \<and>
         nat (random_index r (length deck)) < length deck \<and>
         deck ! nat (random_index r (length deck)) \<in> set deck"
proof -
  have rg: "0 \<le> random_index r (length deck) \<and> random_index r (length deck) < int (length deck)"
    using assms(6,7) by (intro random_index_range) auto
  then have lt: "nat (random_index r (length deck)) < length deck" by linarith
  have "initFlashcard r (s1\<lparr>currentDeck := deck, loadFinished := True\<rparr>) =
          s1\<lparr>currentDeck := deck, loadFinished := True,
             flashcard_value := deck ! nat (random_index r (length deck))\<rparr>"
    using rg assms(6) by (simp add: initFlashcard_def at_index_def)
  then show ?thesis
    using useFlashcard_cache_hit [OF assms(1-5), of r] lt by simp
qed

lemma three_cards_text:
  "JSON_parse (stringify_deck three_cards) =
     Some (JArray [JObject [(''imageSrc'', JString ''a.png''), (''name'', JString ''a'')],
                   JObject [(''imageSrc'', JString ''b.jpg''), (''name'', JString ''b'')],
                   JObject [(''imageSrc'', JString ''c.png''), (''name'', JString ''c'')]])"
  by code_simp

lemma three_cards_value:
  "as_Flashcards
     (JArray [JObject [(''imageSrc'', JString ''a.png''), (''name'', JString ''a'')],
              JObject [(''imageSrc'', JString ''b.jpg''), (''name'', JString ''b'')],
              JObject [(''imageSrc'', JString ''c.png''), (''name'', JString ''c'')]]) =
   Some three_cards"
  by (simp add: field_def three_cards_def)

theorem cached_deck_init_witness:
  "is_random \<lparr>mantissa = 6004799503160661, scale = 53\<rparr> \<and>
   random_index \<lparr>mantissa = 6004799503160661, scale = 53\<rparr> (length three_cards) = 2 \<and>
   useFlashcard \<lparr>mantissa = 6004799503160661, scale = 53\<rparr>
     (initial_session [deckCacheKey \<mapsto> stringify_deck three_cards]) =
   Returns
     ((initial_session [deckCacheKey \<mapsto> stringify_deck three_cards])
      \<lparr>currentDeck := three_cards, loadFinished := True,
        flashcard_value := \<lparr>imageSrc = ''c.png'', name = ''c''\<rparr>,
        isInitialized := True\<rparr>, False)"
proof -
  let ?r = "\<lparr>mantissa = 6004799503160661, scale = 53\<rparr>"
  let ?s = "initial_session [deckCacheKey \<mapsto> stringify_deck three_cards]"
  have 1: "\<not> isInitialized ?s" by (simp add: initial_session_def)
  have 2: "LoadHistoryfromLocal ?s = Returns ?s"
    by (simp add: LoadHistoryfromLocal_def initial_session_def historyKey_def deckCacheKey_def)
  have 3: "localStorage ?s deckCacheKey = Some (stringify_deck three_cards)"
    by (simp add: initial_session_def)
  have 6: "three_cards \<noteq> []" by (simp add: three_cards_def)
  have 7: "is_random ?r" by (simp add: is_random_def)
  have "length three_cards = 3" by (simp add: three_cards_def)
  then have 8: "random_index ?r (length three_cards) = 2"
    by (simp only: random_index_rounds_up)
  have 9: "three_cards ! nat 2 = \<lparr>imageSrc = ''c.png'', name = ''c''\<rparr>"
    by (simp add: three_cards_def)
  show ?thesis
    using cached_deck_init [OF 1 2 3 three_cards_text three_cards_value 6 7] 7 8 9 by simp
qed

text \<open>
  The claim as stated fails on the cached text of the empty deck, which is what
  \<^verbatim>\<open>saveDeckCache\<close> writes after a load that found no image: the cache is hit, and the
  active card stays the placeholder.
\<close>

theorem empty_cached_deck_counterexample:
  "JSON_parse (stringify_deck []) = Some (JArray []) \<and>
   as_Flashcards (JArray []) = Some [] \<and>
   useFlashcard \<lparr>mantissa = 1, scale = 1\<rparr>
     (initial_session [deckCacheKey \<mapsto> stringify_deck []]) =
     Returns ((initial_session [deckCacheKey \<mapsto> stringify_deck []])
                \<lparr>loadFinished := True, isInitialized := True\<rparr>, False) \<and>
   flashcard_value ((initial_session [deckCacheKey \<mapsto> stringify_deck []])
                \<lparr>loadFinished := True, isInitialized := True\<rparr>) =
     \<lparr>imageSrc = '''', name = ''''\<rparr>"
proof -
  let ?s = "initial_session [deckCacheKey \<mapsto> stringify_deck []]"
  have 1: "\<not> isInitialized ?s" by (simp add: initial_session_def)
  have 2: "LoadHistoryfromLocal ?s = Returns ?s"
    by (simp add: LoadHistoryfromLocal_def initial_session_def historyKey_def deckCacheKey_def)
  have 3: "localStorage ?s deckCacheKey = Some (stringify_deck [])"
    by (simp add: initial_session_def)
  have 5: "as_Flashcards (JArray []) = Some []" by simp
  have "useFlashcard \<lparr>mantissa = 1, scale = 1\<rparr> ?s = Returns (?s\<lparr>loadFinished := True, isInitialized := True\<rparr>, False)"
    using useFlashcard_cache_hit [OF 1 2 3 JSON_parse_empty_array 5,
        of "\<lparr>mantissa = 1, scale = 1\<rparr>"]
    by (simp add: initFlashcard_def initial_session_def)
  then show ?thesis
    using JSON_parse_empty_array by (simp add: initial_session_def placeholder_def)
qed

lemma malformed_text: "JSON_parse ''{oops'' = None"
  by code_simp

text \<open>
  Claim C9, amended. With the JSON text of the empty array under the deck key, and a
  stored history that is absent or loads, the first call of \<^verbatim>\<open>useFlashcard\<close> installs the empty deck, sets
  the load-finished flag, starts no remote load and leaves the active card as it was:
  the placeholder of a fresh module.
\<close>

theorem empty_cache_hit:
  assumes "\<not> isInitialized s" and "LoadHistoryfromLocal s = Returns s1"
    and "localStorage s deckCacheKey = Some (stringify_deck [])"
  shows "useFlashcard r s =
           Returns (s1\<lparr>currentDeck := [], loadFinished := True, isInitialized := True\<rparr>, False) \<and>
         flashcard_value (s1\<lparr>currentDeck := [], loadFinished := True, isInitialized := True\<rparr>) =
           flashcard_value s"
proof -
  have s1: "s1 = s\<lparr>historyRecords := historyRecords s1\<rparr>"
    using assms(2) by (rule LoadHistoryfromLocal_Returns)
  have fv: "flashcard_value s1 = flashcard_value s"
    by (subst s1) simp
  have 5: "as_Flashcards (JArray []) = Some []" by simp
  show ?thesis
    using useFlashcard_cache_hit [OF assms JSON_parse_empty_array 5, of r] fv
    by (simp add: initFlashcard_def)
qed

theorem empty_cache_hit_witness:
  "\<not> isInitialized (initial_session [deckCacheKey \<mapsto> ''[]'']) \<and>
   LoadHistoryfromLocal (initial_session [deckCacheKey \<mapsto> ''[]'']) =
     Returns (initial_session [deckCacheKey \<mapsto> ''[]'']) \<and>
   stringify_deck [] = ''[]'' \<and>
   useFlashcard \<lparr>mantissa = 3, scale = 2\<rparr> (initial_session [deckCacheKey \<mapsto> ''[]'']) =
     Returns ((initial_session [deckCacheKey \<mapsto> ''[]''])
                \<lparr>currentDeck := [], loadFinished := True, isInitialized := True\<rparr>, False) \<and>
   flashcard_value ((initial_session [deckCacheKey \<mapsto> ''[]''])
                \<lparr>currentDeck := [], loadFinished := True, isInitialized := True\<rparr>) = placeholder"
proof -
  let ?s = "initial_session [deckCacheKey \<mapsto> ''[]'']"
  have 0: "stringify_deck [] = ''[]''" by (simp add: stringify_deck_def)
  have 1: "\<not> isInitialized ?s" by (simp add: initial_session_def)
  have 2: "LoadHistoryfromLocal ?s = Returns ?s"
    by (simp add: LoadHistoryfromLocal_def initial_session_def historyKey_def deckCacheKey_def)
  have 3: "localStorage ?s deckCacheKey = Some (stringify_deck [])"
    by (simp add: initial_session_def 0)
  have 4: "flashcard_value ?s = placeholder" by (simp add: initial_session_def)
  show ?thesis
    using empty_cache_hit [OF 1 2 3, of "\<lparr>mantissa = 3, scale = 2\<rparr>"] 0 1 2 4 by simp
qed

text \<open>
  The claim as stated, for every store with the empty array under the deck key, fails
  where the stored history is malformed: \<^verbatim>\<open>LoadHistoryfromLocal\<close> runs first, its parse is
  not guarded, and the initializer throws before it reads the cache.
\<close>

theorem empty_cache_bad_history_counterexample:
  "localStorage (initial_session [deckCacheKey \<mapsto> ''[]'', historyKey \<mapsto> ''{oops''])
     deckCacheKey = Some (stringify_deck []) \<and>
   \<not> isInitialized (initial_session [deckCacheKey \<mapsto> ''[]'', historyKey \<mapsto> ''{oops'']) \<and>
   useFlashcard \<lparr>mantissa = 1, scale = 1\<rparr>
     (initial_session [deckCacheKey \<mapsto> ''[]'', historyKey \<mapsto> ''{oops'']) =
     Throws SyntaxError"
  by (simp add: useFlashcard_def LoadHistoryfromLocal_def initial_session_def malformed_text
        stringify_deck_def historyKey_def deckCacheKey_def)

subsection \<open>A malformed deck cache\<close>

text \<open>
  Claim C5, amended. A stored text that \<^verbatim>\<open>JSON.parse\<close> rejects never makes
  \<^verbatim>\<open>LoadDeckfromCache\<close> throw: it reports absent, and so does every later read, which
  finds the store as the first read left it. A text that is not empty is removed by the
  first read; the empty text fails the test \<^verbatim>\<open>if (cache)\<close> and stays in the store.
\<close>

theorem malformed_cache_read:
  assumes "localStorage s deckCacheKey = Some text" and "JSON_parse text = None"
  shows "LoadDeckfromCache s =
           Returns (None, if text = [] then s
                          else s\<lparr>localStorage := (localStorage s)(deckCacheKey := None)\<rparr>) \<and>
         LoadDeckfromCache (if text = [] then s
                            else s\<lparr>localStorage := (localStorage s)(deckCacheKey := None)\<rparr>) =
           Returns (None, if text = [] then s
                          else s\<lparr>localStorage := (localStorage s)(deckCacheKey := None)\<rparr>)"
  using assms by (simp add: LoadDeckfromCache_def)

theorem malformed_cache_read_witness:
  "localStorage (initial_session [deckCacheKey \<mapsto> ''{oops'']) deckCacheKey = Some ''{oops'' \<and>
   JSON_parse ''{oops'' = None \<and>
   LoadDeckfromCache (initial_session [deckCacheKey \<mapsto> ''{oops'']) =
     Returns (None, initial_session Map.empty) \<and>
   LoadDeckfromCache (initial_session Map.empty) = Returns (None, initial_session Map.empty)"
proof -
  have 1: "localStorage (initial_session [deckCacheKey \<mapsto> ''{oops'']) deckCacheKey = Some ''{oops''"
    by (simp add: initial_session_def)
  show ?thesis
    using malformed_cache_read [OF 1 malformed_text] 1 malformed_text
    by (simp add: initial_session_def)
qed

text \<open>
  The claim as stated fails on the empty text: it is no JSON, the read reports absent,
  and the entry is still there.
\<close>

theorem empty_text_kept_counterexample:
  "localStorage (initial_session [deckCacheKey \<mapsto> '''']) deckCacheKey = Some '''' \<and>
   JSON_parse '''' = None \<and>
   LoadDeckfromCache (initial_session [deckCacheKey \<mapsto> '''']) =
     Returns (None, initial_session [deckCacheKey \<mapsto> ''''])"
  by (simp add: LoadDeckfromCache_def initial_session_def JSON_parse_Nil)

subsection \<open>The stored history\<close>












subsection \<open>Loading images\<close>

lemma LoadImageBySrc_accepted:
  "image_accepted net src \<Longrightarrow>
   LoadImageBySrc net src itemName s =
     Inr (s\<lparr>currentDeck := currentDeck s @ [\<lparr>imageSrc = src, name = itemName\<rparr>]\<rparr>)"
  by (auto simp: LoadImageBySrc_def image_accepted_def split: option.splits)

lemma LoadImageBySrc_rejected:
  "\<not> image_accepted net src \<Longrightarrow> isl (LoadImageBySrc net src itemName s)"
  by (auto simp: LoadImageBySrc_def image_accepted_def split: option.splits)

lemma attempt_eq:
  "attempt net src itemName (s, n) =
     (if image_accepted net src
      then (s\<lparr>currentDeck := currentDeck s @ [\<lparr>imageSrc = src, name = itemName\<rparr>]\<rparr>, Suc n, False)
      else (s, n, True))"
proof (cases "image_accepted net src")
  case True
  then show ?thesis by (simp add: attempt_def LoadImageBySrc_accepted)
next
  case False
  then obtain e where "LoadImageBySrc net src itemName s = Inl e"
    using LoadImageBySrc_rejected [of net src itemName s]
    by (cases "LoadImageBySrc net src itemName s") auto
  with False show ?thesis by (simp add: attempt_def)
qed

lemma flags_probe_body:
  "pngFlag (probe_body net folder itemName p) =
     (pngFlag p \<or> png_fails net folder itemName (imageIndex p))"
  "jpgFlag (probe_body net folder itemName p) =
     (jpgFlag p \<or> jpg_fails net folder itemName (imageIndex p))"
  by (simp_all add: probe_body_def Let_def attempt_eq png_fails_def jpg_fails_def)

lemma deck_probe_body:
  "currentDeck (session_of (probe_body net folder itemName p)) =
     currentDeck (session_of p) @
     (if png_fails net folder itemName (imageIndex p) then []
      else [\<lparr>imageSrc = folder @ itemName @ show_nat (imageIndex p) @ ''.png'', name = itemName\<rparr>]) @
     (if jpg_fails net folder itemName (imageIndex p) then []
      else [\<lparr>imageSrc = folder @ itemName @ show_nat (imageIndex p) @ ''.jpg'', name = itemName\<rparr>])"
  by (simp add: probe_body_def Let_def attempt_eq png_fails_def jpg_fails_def)

lemma image_accepted_iff:
  "image_accepted net src =
     (\<exists>response. net src = Some response \<and> ok response \<and>
        (blob_type response = ''image/jpeg'' \<or> blob_type response = ''image/png''))"
  by (auto simp: image_accepted_def split: option.splits)

lemma from_images_attempt:
  "from_images net deck s \<Longrightarrow> from_images net deck (fst (attempt net src itemName (s, n)))"
  by (auto simp: from_images_def attempt_eq)

lemma from_images_probe_body:
  "from_images net deck (session_of p) \<Longrightarrow>
   from_images net deck (session_of (probe_body net folder itemName p))"
  by (simp add: probe_body_def Let_def)
     (metis from_images_attempt prod.collapse)

text \<open>The three ways through one test of the \<^verbatim>\<open>while\<close> loop.\<close>

lemma probe_done:
  "\<not> imageIndex p < 10 \<Longrightarrow> probe net folder itemName p = p"
  by (subst probe.simps) simp

lemma probe_stop:
  "imageIndex p < 10 \<Longrightarrow>
   pngFlag (probe_body net folder itemName p) \<and> jpgFlag (probe_body net folder itemName p) \<Longrightarrow>
   probe net folder itemName p = probe_body net folder itemName p"
  by (subst probe.simps) (simp add: Let_def)

lemma probe_continue:
  "imageIndex p < 10 \<Longrightarrow>
   \<not> (pngFlag (probe_body net folder itemName p) \<and> jpgFlag (probe_body net folder itemName p)) \<Longrightarrow>
   probe net folder itemName p =
     probe net folder itemName ((probe_body net folder itemName p)\<lparr>imageIndex := imageIndex p + 1\<rparr>)"
  by (subst probe.simps) (auto simp: Let_def)

lemma from_images_probe:
  "from_images net deck (session_of p) \<Longrightarrow>
   from_images net deck (session_of (probe net folder itemName p))"
proof (induction net folder itemName p rule: probe.induct)
  case (1 net folder itemName p)
  show ?case
  proof (cases "imageIndex p < 10")
    case False
    with 1(2) show ?thesis by (simp add: probe_done)
  next
    case True
    have b: "from_images net deck (session_of (probe_body net folder itemName p))"
      using 1(2) by (rule from_images_probe_body)
    show ?thesis
    proof (cases "pngFlag (probe_body net folder itemName p) \<and> jpgFlag (probe_body net folder itemName p)")
      case stop: True
      then show ?thesis using True b by (simp add: probe_stop)
    next
      case go: False
      show ?thesis
        using 1(1) [OF True refl go] b by (simp add: probe_continue [OF True go])
    qed
  qed
qed

lemma from_images_load_item:
  assumes "from_images net deck s"
  shows "from_images net deck (load_item net folder itemName s)"
proof -
  let ?a = "attempt net (folder @ itemName @ ''.png'') itemName (s, 0)"
  let ?b = "attempt net (folder @ itemName @ ''.jpg'') itemName (fst ?a, fst (snd ?a))"
  have "from_images net deck (fst ?a)" using assms by (rule from_images_attempt)
  then have "from_images net deck (fst ?b)" by (rule from_images_attempt)
  then have "from_images net deck (session_of (probe net folder itemName
      (probe_start (fst ?b) (fst (snd ?b)))))"
    by (intro from_images_probe) (simp add: probe_start_def)
  then show ?thesis
    by (simp add: load_item_def Let_def from_images_def)
qed

lemma from_images_foldl:
  "from_images net deck s \<Longrightarrow>
   from_images net deck (foldl (\<lambda>t itemName. load_item net folder itemName t) s itemNames)"
  by (induction itemNames arbitrary: s) (simp_all add: from_images_load_item)

lemma from_images_LoadDeckfromLocal:
  assumes "LoadDeckfromLocal net base picks s = Returns s'"
  shows "from_images net (currentDeck s) s'"
proof -
  let ?run = "\<lambda>itemNames. foldl (\<lambda>t itemName. load_item net (base @ ''photo/'') itemName t) s
                (shuffle_by picks itemNames)"
  obtain itemNames where s': "s' = saveDeckCache (currentDeck (?run itemNames)) (?run itemNames)"
    using assms by (auto simp: LoadDeckfromLocal_def Let_def split: outcome.splits)
  have "from_images net (currentDeck s) s" by (simp add: from_images_def)
  then have "from_images net (currentDeck s) (?run itemNames)"
    by (rule from_images_foldl)
  then show ?thesis
    by (simp add: s' saveDeckCache_def from_images_def)
qed

text \<open>Evaluating the example networks.\<close>

lemma show_nat_digit:
  "show_nat 1 = ''1''" "show_nat 2 = ''2''" "show_nat 3 = ''3''" "show_nat 4 = ''4''"
  "show_nat 5 = ''5''" "show_nat 6 = ''6''" "show_nat 7 = ''7''" "show_nat 8 = ''8''"
  "show_nat 9 = ''9''"
  by code_simp+

lemma show_nat_Suc_0: "show_nat (Suc 0) = ''1''"
  using show_nat_digit(1) by simp

lemmas fetch_eval = png_fails_def jpg_fails_def image_accepted_def all_images_but_def
  serving_def served_def not_found_def offline_def show_nat_digit show_nat_Suc_0

text \<open>
  Claim C8. \<^verbatim>\<open>LoadImageBySrc\<close> adds a card only for a response whose blob type is
  \<^verbatim>\<open>image/jpeg\<close> or \<^verbatim>\<open>image/png\<close>. A response of any other type makes it throw, which the
  loader counts as a failed attempt that leaves the deck alone; and every card that
  \<^verbatim>\<open>LoadDeckfromLocal\<close> adds to the deck comes from a response of one of the two types.
\<close>

theorem only_images_enter_deck:
  "(\<forall>s'. LoadImageBySrc net src itemName s = Inr s' \<longrightarrow>
      (\<exists>response. net src = Some response \<and> ok response \<and>
         (blob_type response = ''image/jpeg'' \<or> blob_type response = ''image/png'')) \<and>
      s' = s\<lparr>currentDeck := currentDeck s @ [\<lparr>imageSrc = src, name = itemName\<rparr>]\<rparr>) \<and>
   (\<forall>response. net src = Some response \<and> blob_type response \<noteq> ''image/jpeg'' \<and>
        blob_type response \<noteq> ''image/png'' \<longrightarrow>
      (\<exists>e. LoadImageBySrc net src itemName s = Inl e) \<and>
      attempt net src itemName (s, n) = (s, n, True)) \<and>
   (\<forall>s'. LoadDeckfromLocal net base picks s = Returns s' \<longrightarrow>
      (\<forall>c \<in> set (currentDeck s'). c \<in> set (currentDeck s) \<or>
         (\<exists>response. net (imageSrc c) = Some response \<and> ok response \<and>
            (blob_type response = ''image/jpeg'' \<or> blob_type response = ''image/png''))))"
proof (intro conjI allI impI)
  fix s' assume a: "LoadImageBySrc net src itemName s = Inr s'"
  then have acc: "image_accepted net src"
    using LoadImageBySrc_rejected [of net src itemName s] by (cases "image_accepted net src") auto
  then show "\<exists>response. net src = Some response \<and> ok response \<and>
         (blob_type response = ''image/jpeg'' \<or> blob_type response = ''image/png'')"
    by (simp add: image_accepted_iff)
  show "s' = s\<lparr>currentDeck := currentDeck s @ [\<lparr>imageSrc = src, name = itemName\<rparr>]\<rparr>"
    using a LoadImageBySrc_accepted [OF acc, of itemName s] by simp
next
  fix response
  assume a: "net src = Some response \<and> blob_type response \<noteq> ''image/jpeg'' \<and>
        blob_type response \<noteq> ''image/png''"
  then have rej: "\<not> image_accepted net src" by (simp add: image_accepted_def)
  then show "\<exists>e. LoadImageBySrc net src itemName s = Inl e"
    using LoadImageBySrc_rejected [of net src itemName s]
    by (cases "LoadImageBySrc net src itemName s") auto
  show "attempt net src itemName (s, n) = (s, n, True)"
    using rej by (simp add: attempt_eq)
next
  fix s' assume "LoadDeckfromLocal net base picks s = Returns s'"
  then have "from_images net (currentDeck s) s'" by (rule from_images_LoadDeckfromLocal)
  then show "\<forall>c \<in> set (currentDeck s'). c \<in> set (currentDeck s) \<or>
         (\<exists>response. net (imageSrc c) = Some response \<and> ok response \<and>
            (blob_type response = ''image/jpeg'' \<or> blob_type response = ''image/png''))"
    by (simp add: from_images_def image_accepted_iff)
qed

lemma cat_config_parsed:
  "JSON_parse cat_config = Some (JObject [(''itemNames'', JArray [JString ''cat''])])"
  by code_simp

lemma cat_site_itemNames: "config_itemNames cat_site ''/photo/'' = Returns [''cat'']"
  by (simp add: config_itemNames_def cat_site_def serving_def served_def cat_config_parsed field_def)

lemma cat_site_load:
  "currentDeck (load_item cat_site ''/photo/'' ''cat'' (initial_session Map.empty)) =
     [\<lparr>imageSrc = ''/photo/cat.png'', name = ''cat''\<rparr>]"
proof -
  let ?s1 = "(initial_session Map.empty)\<lparr>currentDeck := [\<lparr>imageSrc = ''/photo/cat.png'', name = ''cat''\<rparr>]\<rparr>"
  let ?p = "probe_start ?s1 (Suc 0)"
  have acc: "image_accepted cat_site ''/photo/cat.png''" "\<not> image_accepted cat_site ''/photo/cat.jpg''"
    by (simp_all add: cat_site_def fetch_eval)
  have f: "png_fails cat_site ''/photo/'' ''cat'' (Suc 0)" "jpg_fails cat_site ''/photo/'' ''cat'' (Suc 0)"
    by (simp_all add: cat_site_def fetch_eval)
  have "probe cat_site ''/photo/'' ''cat'' ?p = probe_body cat_site ''/photo/'' ''cat'' ?p"
    by (rule probe_stop) (simp_all add: flags_probe_body f probe_start_def)
  moreover have "currentDeck (session_of (probe_body cat_site ''/photo/'' ''cat'' ?p)) =
      [\<lparr>imageSrc = ''/photo/cat.png'', name = ''cat''\<rparr>]"
    using f by (simp add: deck_probe_body probe_start_def)
  ultimately show ?thesis
    using acc by (simp add: load_item_def Let_def attempt_eq initial_session_def)
qed

lemma cat_site_deck:
  "\<exists>s'. LoadDeckfromLocal cat_site ''/'' [] (initial_session Map.empty) = Returns s' \<and>
     currentDeck s' = [\<lparr>imageSrc = ''/photo/cat.png'', name = ''cat''\<rparr>]"
  using cat_site_load
  by (simp add: LoadDeckfromLocal_def cat_site_itemNames Let_def saveDeckCache_def)

theorem only_images_enter_deck_witness:
  "cat_site ''/photo/cat.jpg'' = Some (served ''text/html'' '''') \<and>
   blob_type (served ''text/html'' '''') = ''text/html'' \<and>
   attempt cat_site ''/photo/cat.jpg'' ''cat'' (initial_session Map.empty, 0) =
     (initial_session Map.empty, 0, True) \<and>
   (\<exists>s'. LoadDeckfromLocal cat_site ''/'' [] (initial_session Map.empty) = Returns s' \<and>
      currentDeck s' = [\<lparr>imageSrc = ''/photo/cat.png'', name = ''cat''\<rparr>] \<and>
      (\<forall>c \<in> set (currentDeck s'). imageSrc c \<noteq> ''/photo/cat.jpg''))"
proof -
  note t = only_images_enter_deck [of cat_site "''/photo/cat.jpg''" "''cat''"
      "initial_session Map.empty" 0 "''/''" "[]"]
  have r: "cat_site ''/photo/cat.jpg'' = Some (served ''text/html'' '''')"
    by (simp add: cat_site_def serving_def)
  have b: "blob_type (served ''text/html'' '''') = ''text/html''"
    by (simp add: served_def)
  have att: "attempt cat_site ''/photo/cat.jpg'' ''cat'' (initial_session Map.empty, 0) =
     (initial_session Map.empty, 0, True)"
    using t r b by simp
  obtain s' where s': "LoadDeckfromLocal cat_site ''/'' [] (initial_session Map.empty) = Returns s'"
    "currentDeck s' = [\<lparr>imageSrc = ''/photo/cat.png'', name = ''cat''\<rparr>]"
    using cat_site_deck by blast
  have none: "\<forall>c \<in> set (currentDeck s'). imageSrc c \<noteq> ''/photo/cat.jpg''"
  proof
    fix c assume c: "c \<in> set (currentDeck s')"
    with t s'(1) have "c \<in> set (currentDeck (initial_session Map.empty)) \<or>
         (\<exists>response. cat_site (imageSrc c) = Some response \<and> ok response \<and>
            (blob_type response = ''image/jpeg'' \<or> blob_type response = ''image/png''))"
      by blast
    then show "imageSrc c \<noteq> ''/photo/cat.jpg''"
      using r b by (auto simp: initial_session_def)
  qed
  show ?thesis using r b att s' none by blast
qed

subsection \<open>A failed config fetch\<close>

lemma config_failed:
  assumes "net (base @ ''photo/deck-config.json'') = None \<or>
           (\<exists>configResponse. net (base @ ''photo/deck-config.json'') = Some configResponse \<and>
              (case JSON_parse (body configResponse) of
                 None \<Rightarrow> True | Some config \<Rightarrow> \<not> has_itemNames_array config))"
  shows "config_itemNames net (base @ ''photo/'') = Returns []"
  using assms
  by (auto simp: config_itemNames_def split: option.splits json.splits)

text \<open>
  Claim C6, amended. Where the fetch of the config rejects, or its body is no JSON or not
  an object with an \<^verbatim>\<open>itemNames\<close> array, \<^verbatim>\<open>LoadDeckfromLocal\<close> returns without a throw,
  loads no image, leaves the deck as it was and saves it to the cache: the deck is empty
  where it was empty before the call, as in a fresh module.
\<close>

theorem config_failure_empty_deck:
  assumes "net (base @ ''photo/deck-config.json'') = None \<or>
           (\<exists>configResponse. net (base @ ''photo/deck-config.json'') = Some configResponse \<and>
              (case JSON_parse (body configResponse) of
                 None \<Rightarrow> True | Some config \<Rightarrow> \<not> has_itemNames_array config))"
  shows "LoadDeckfromLocal net base picks s = Returns (saveDeckCache (currentDeck s) s) \<and>
         currentDeck (saveDeckCache (currentDeck s) s) = currentDeck s \<and>
         (currentDeck s = [] \<longrightarrow> currentDeck (saveDeckCache (currentDeck s) s) = [] \<and>
            localStorage (saveDeckCache (currentDeck s) s) deckCacheKey = Some ''[]'')"
  using config_failed [of net base, OF assms]
  by (simp add: LoadDeckfromLocal_def Let_def saveDeckCache_def stringify_deck_def)

theorem config_failure_empty_deck_witness:
  "offline (''/'' @ ''photo/deck-config.json'') = None \<and>
   currentDeck (initial_session Map.empty) = [] \<and>
   LoadDeckfromLocal offline ''/'' [2, 0] (initial_session Map.empty) =
     Returns (saveDeckCache [] (initial_session Map.empty)) \<and>
   currentDeck (saveDeckCache [] (initial_session Map.empty)) = [] \<and>
   localStorage (saveDeckCache [] (initial_session Map.empty)) deckCacheKey = Some ''[]''"
proof -
  have h: "offline (''/'' @ ''photo/deck-config.json'') = None \<or>
           (\<exists>configResponse. offline (''/'' @ ''photo/deck-config.json'') = Some configResponse \<and>
              (case JSON_parse (body configResponse) of
                 None \<Rightarrow> True | Some config \<Rightarrow> \<not> has_itemNames_array config))"
    by (simp add: offline_def)
  have e: "currentDeck (initial_session Map.empty) = []" by (simp add: initial_session_def)
  show ?thesis
    using config_failure_empty_deck [of offline "''/''" "[2, 0]" "initial_session Map.empty", OF h] e
    by (simp add: offline_def)
qed

text \<open>
  The claim as stated fails where the deck holds a card before the call: the routine
  never clears the deck, and is handed to the callers of \<^verbatim>\<open>useFlashcard\<close>.
\<close>

theorem config_failure_keeps_deck_counterexample:
  "offline (''/'' @ ''photo/deck-config.json'') = None \<and>
   LoadDeckfromLocal offline ''/'' []
     ((initial_session Map.empty)\<lparr>currentDeck := [\<lparr>imageSrc = ''/photo/cat.png'', name = ''cat''\<rparr>]\<rparr>) =
   Returns (saveDeckCache [\<lparr>imageSrc = ''/photo/cat.png'', name = ''cat''\<rparr>]
     ((initial_session Map.empty)\<lparr>currentDeck := [\<lparr>imageSrc = ''/photo/cat.png'', name = ''cat''\<rparr>]\<rparr>)) \<and>
   currentDeck (saveDeckCache [\<lparr>imageSrc = ''/photo/cat.png'', name = ''cat''\<rparr>]
     ((initial_session Map.empty)\<lparr>currentDeck := [\<lparr>imageSrc = ''/photo/cat.png'', name = ''cat''\<rparr>]\<rparr>)) =
   [\<lparr>imageSrc = ''/photo/cat.png'', name = ''cat''\<rparr>]"
proof -
  have "config_itemNames offline (''/'' @ ''photo/'') = Returns []"
    by (rule config_failed) (simp add: offline_def)
  then show ?thesis
    by (simp add: LoadDeckfromLocal_def Let_def saveDeckCache_def offline_def)
qed

subsection \<open>The indexed probe\<close>

lemma both_failed_by_step:
  assumes "imageIndex p \<le> m"
  shows "both_failed_by net folder itemName
           ((probe_body net folder itemName p)\<lparr>imageIndex := Suc (imageIndex p)\<rparr>) m =
         both_failed_by net folder itemName p m"
proof -
  have "\<And>P. (\<exists>j. imageIndex p \<le> j \<and> j \<le> m \<and> P j) =
             (P (imageIndex p) \<or> (\<exists>j. Suc (imageIndex p) \<le> j \<and> j \<le> m \<and> P j))"
    using assms by (metis Suc_leI le_neq_implies_less order_refl Suc_leD)
  then show ?thesis
    by (simp add: both_failed_by_def flags_probe_body)
qed

lemma both_failed_by_here:
  "both_failed_by net folder itemName p (imageIndex p) =
     (pngFlag (probe_body net folder itemName p) \<and> jpgFlag (probe_body net folder itemName p))"
  by (auto simp: both_failed_by_def flags_probe_body)

lemma probe_index_bounds:
  "imageIndex p \<le> 10 \<Longrightarrow>
   imageIndex p \<le> imageIndex (probe net folder itemName p) \<and>
   imageIndex (probe net folder itemName p) \<le> 10"
proof (induction net folder itemName p rule: probe.induct)
  case (1 net folder itemName p)
  show ?case
  proof (cases "imageIndex p < 10")
    case False
    with 1 show ?thesis by (simp add: probe_done)
  next
    case True
    show ?thesis
    proof (cases "pngFlag (probe_body net folder itemName p) \<and> jpgFlag (probe_body net folder itemName p)")
      case stop: True
      then show ?thesis using True by (simp add: probe_stop)
    next
      case go: False
      from 1(1) [OF True refl go] True
      show ?thesis by (simp add: probe_continue [OF True go])
    qed
  qed
qed

lemma probe_stop_hit:
  "imageIndex (probe net folder itemName p) < 10 \<Longrightarrow>
   both_failed_by net folder itemName p (imageIndex (probe net folder itemName p))"
proof (induction net folder itemName p rule: probe.induct)
  case (1 net folder itemName p)
  show ?case
  proof (cases "imageIndex p < 10")
    case False
    with 1(2) show ?thesis by (simp add: probe_done)
  next
    case True
    show ?thesis
    proof (cases "pngFlag (probe_body net folder itemName p) \<and> jpgFlag (probe_body net folder itemName p)")
      case stop: True
      then have "probe net folder itemName p = probe_body net folder itemName p"
        using True by (simp add: probe_stop)
      then show ?thesis using stop by (simp add: both_failed_by_here)
    next
      case go: False
      let ?p = "(probe_body net folder itemName p)\<lparr>imageIndex := imageIndex p + 1\<rparr>"
      have eq: "probe net folder itemName p = probe net folder itemName ?p"
        using True go by (rule probe_continue)
      have le: "imageIndex ?p \<le> imageIndex (probe net folder itemName ?p)"
        using True probe_index_bounds [of ?p net folder itemName] by simp
      have "both_failed_by net folder itemName ?p (imageIndex (probe net folder itemName ?p))"
        using 1(1) [OF True refl go] 1(2) eq by simp
      then show ?thesis
        using le by (simp add: eq both_failed_by_step)
    qed
  qed
qed

lemma probe_no_earlier_hit:
  "imageIndex p \<le> m \<Longrightarrow> m < imageIndex (probe net folder itemName p) \<Longrightarrow>
   \<not> both_failed_by net folder itemName p m"
proof (induction net folder itemName p rule: probe.induct)
  case (1 net folder itemName p)
  show ?case
  proof (cases "imageIndex p < 10")
    case False
    with 1(2,3) show ?thesis by (simp add: probe_done)
  next
    case True
    show ?thesis
    proof (cases "pngFlag (probe_body net folder itemName p) \<and> jpgFlag (probe_body net folder itemName p)")
      case stop: True
      then have "probe net folder itemName p = probe_body net folder itemName p"
        using True by (simp add: probe_stop)
      with 1(2,3) show ?thesis by simp
    next
      case go: False
      let ?p = "(probe_body net folder itemName p)\<lparr>imageIndex := imageIndex p + 1\<rparr>"
      have eq: "probe net folder itemName p = probe net folder itemName ?p"
        using True go by (rule probe_continue)
      show ?thesis
      proof (cases "m = imageIndex p")
        case True
        then show ?thesis using go by (simp add: both_failed_by_here)
      next
        case False
        with 1(2) have "imageIndex ?p \<le> m" by simp
        moreover have "m < imageIndex (probe net folder itemName ?p)" using 1(3) eq by simp
        ultimately have "\<not> both_failed_by net folder itemName ?p m"
          using 1(1) [OF True refl go] by simp
        then show ?thesis using 1(2) by (simp add: both_failed_by_step)
      qed
    qed
  qed
qed

text \<open>
  Claim C1, amended. The two flags are never reset, so the probe over the indices 1 to 9
  stops early exactly when some \<^verbatim>\<open>.png\<close> fetch fails and some \<^verbatim>\<open>.jpg\<close> fetch fails, at the
  same index or at different ones. It stops at the first index by which both have
  happened; both failing at one index is enough to stop there at the latest.
\<close>

theorem probe_stops_on_flags:
  "1 \<le> imageIndex (probe net folder itemName (probe_start s n)) \<and>
   imageIndex (probe net folder itemName (probe_start s n)) \<le> 10 \<and>
   (imageIndex (probe net folder itemName (probe_start s n)) < 10 \<longleftrightarrow>
      (\<exists>j \<in> {1..<10}. png_fails net folder itemName j) \<and>
      (\<exists>k \<in> {1..<10}. jpg_fails net folder itemName k)) \<and>
   (imageIndex (probe net folder itemName (probe_start s n)) < 10 \<longrightarrow>
      (\<exists>j \<in> {1..imageIndex (probe net folder itemName (probe_start s n))}.
          png_fails net folder itemName j) \<and>
      (\<exists>k \<in> {1..imageIndex (probe net folder itemName (probe_start s n))}.
          jpg_fails net folder itemName k)) \<and>
   (\<forall>m \<in> {1..<imageIndex (probe net folder itemName (probe_start s n))}.
      \<not> ((\<exists>j \<in> {1..m}. png_fails net folder itemName j) \<and>
         (\<exists>k \<in> {1..m}. jpg_fails net folder itemName k))) \<and>
   (\<forall>i \<in> {1..<10}. png_fails net folder itemName i \<and> jpg_fails net folder itemName i \<longrightarrow>
      imageIndex (probe net folder itemName (probe_start s n)) \<le> i)"
proof -
  let ?p = "probe_start s n"
  let ?q = "probe net folder itemName ?p"
  have start: "imageIndex ?p = 1" "\<not> pngFlag ?p" "\<not> jpgFlag ?p"
    by (simp_all add: probe_start_def)
  have by_iff: "\<And>m. both_failed_by net folder itemName ?p m \<longleftrightarrow>
      (\<exists>j \<in> {1..m}. png_fails net folder itemName j) \<and>
      (\<exists>k \<in> {1..m}. jpg_fails net folder itemName k)"
    using start by (auto simp: both_failed_by_def)
  have bounds: "1 \<le> imageIndex ?q" "imageIndex ?q \<le> 10"
    using probe_index_bounds [of ?p net folder itemName] start by simp_all
  have hit: "imageIndex ?q < 10 \<Longrightarrow> both_failed_by net folder itemName ?p (imageIndex ?q)"
    by (rule probe_stop_hit)
  have early: "\<And>m. 1 \<le> m \<Longrightarrow> m < imageIndex ?q \<Longrightarrow> \<not> both_failed_by net folder itemName ?p m"
    using probe_no_earlier_hit [of ?p _ net folder itemName] start by simp
  have c3: "imageIndex ?q < 10 \<longleftrightarrow>
      (\<exists>j \<in> {1..<10}. png_fails net folder itemName j) \<and>
      (\<exists>k \<in> {1..<10}. jpg_fails net folder itemName k)"
  proof
    assume lt: "imageIndex ?q < 10"
    from hit [OF lt] have "(\<exists>j \<in> {1..imageIndex ?q}. png_fails net folder itemName j) \<and>
      (\<exists>k \<in> {1..imageIndex ?q}. jpg_fails net folder itemName k)"
      by (simp add: by_iff)
    with lt show "(\<exists>j \<in> {1..<10}. png_fails net folder itemName j) \<and>
      (\<exists>k \<in> {1..<10}. jpg_fails net folder itemName k)"
      by auto
  next
    assume "(\<exists>j \<in> {1..<10}. png_fails net folder itemName j) \<and>
      (\<exists>k \<in> {1..<10}. jpg_fails net folder itemName k)"
    then have "both_failed_by net folder itemName ?p 9"
      by (auto simp: by_iff)
    then have "\<not> 9 < imageIndex ?q" using early [of 9] by auto
    then show "imageIndex ?q < 10" by simp
  qed
  have c4: "imageIndex ?q < 10 \<longrightarrow>
      (\<exists>j \<in> {1..imageIndex ?q}. png_fails net folder itemName j) \<and>
      (\<exists>k \<in> {1..imageIndex ?q}. jpg_fails net folder itemName k)"
    using hit by (simp add: by_iff)
  have c5: "\<forall>m \<in> {1..<imageIndex ?q}.
      \<not> ((\<exists>j \<in> {1..m}. png_fails net folder itemName j) \<and>
         (\<exists>k \<in> {1..m}. jpg_fails net folder itemName k))"
    using early by (simp add: by_iff)
  have c6: "\<forall>i \<in> {1..<10}. png_fails net folder itemName i \<and> jpg_fails net folder itemName i \<longrightarrow>
      imageIndex ?q \<le> i"
  proof (intro ballI impI)
    fix i assume i: "i \<in> {1..<10}"
      and f: "png_fails net folder itemName i \<and> jpg_fails net folder itemName i"
    then have "both_failed_by net folder itemName ?p i"
      by (auto simp: by_iff)
    then have "\<not> i < imageIndex ?q" using early [of i] i by auto
    then show "imageIndex ?q \<le> i" by simp
  qed
  show ?thesis using bounds c3 c4 c5 c6 by blast
qed

theorem probe_stops_on_flags_witness:
  "png_fails (serving [(''/photo/cat1.png'', served ''image/png'' ''''),
       (''/photo/cat1.jpg'', served ''image/jpeg'' ''''),
       (''/photo/cat2.png'', served ''image/png'' '''')]) ''/photo/'' ''cat'' 3 \<and>
   jpg_fails (serving [(''/photo/cat1.png'', served ''image/png'' ''''),
       (''/photo/cat1.jpg'', served ''image/jpeg'' ''''),
       (''/photo/cat2.png'', served ''image/png'' '''')]) ''/photo/'' ''cat'' 3 \<and>
   imageIndex (probe (serving [(''/photo/cat1.png'', served ''image/png'' ''''),
       (''/photo/cat1.jpg'', served ''image/jpeg'' ''''),
       (''/photo/cat2.png'', served ''image/png'' '''')]) ''/photo/'' ''cat''
     (probe_start (initial_session Map.empty) 0)) = 3"
proof -
  let ?net = "serving [(''/photo/cat1.png'', served ''image/png'' ''''),
       (''/photo/cat1.jpg'', served ''image/jpeg'' ''''),
       (''/photo/cat2.png'', served ''image/png'' '''')]"
  let ?q = "probe ?net ''/photo/'' ''cat'' (probe_start (initial_session Map.empty) 0)"
  have a: "\<not> png_fails ?net ''/photo/'' ''cat'' 1" "\<not> png_fails ?net ''/photo/'' ''cat'' 2"
    "png_fails ?net ''/photo/'' ''cat'' 3" "jpg_fails ?net ''/photo/'' ''cat'' 3"
    by (simp_all add: fetch_eval)
  note t = probe_stops_on_flags [of ?net "''/photo/''" "''cat''" "initial_session Map.empty" 0]
  have le: "imageIndex ?q \<le> 3" using t a(3,4) by simp
  then have "imageIndex ?q < 10" by simp
  with t obtain j where j: "1 \<le> j" "j \<le> imageIndex ?q" "png_fails ?net ''/photo/'' ''cat'' j"
    by auto
  have "j \<noteq> 1" "j \<noteq> 2" using j(3) a(1,2) by auto
  with j(1,2) have "3 \<le> imageIndex ?q" by simp
  with le a(3,4) show ?thesis by simp
qed

lemma interval_1_10: "{1..<10::nat} = {1, 2, 3, 4, 5, 6, 7, 8, 9}"
  by auto

lemma gap_no_common_index: "\<not> (\<exists>i \<in> {1..<10}.
        png_fails (all_images_but [''/photo/cat1.png'', ''/photo/cat2.jpg'']) ''/photo/'' ''cat'' i \<and>
        jpg_fails (all_images_but [''/photo/cat1.png'', ''/photo/cat2.jpg'']) ''/photo/'' ''cat'' i)"
  by (simp add: interval_1_10 fetch_eval)

text \<open>
  The claim as stated fails where \<^verbatim>\<open>cat1.png\<close> and \<^verbatim>\<open>cat2.jpg\<close> are missing and every
  other image is there: at no index do both fetches fail, yet the probe stops at index 2
  with two cards.
\<close>

theorem probe_gap_counterexample:
  "imageIndex (probe (all_images_but [''/photo/cat1.png'', ''/photo/cat2.jpg'']) ''/photo/'' ''cat''
      (probe_start (initial_session Map.empty) 0)) = 2 \<and>
   \<not> (\<exists>i \<in> {1..<10}.
        png_fails (all_images_but [''/photo/cat1.png'', ''/photo/cat2.jpg'']) ''/photo/'' ''cat'' i \<and>
        jpg_fails (all_images_but [''/photo/cat1.png'', ''/photo/cat2.jpg'']) ''/photo/'' ''cat'' i) \<and>
   png_fails (all_images_but [''/photo/cat1.png'', ''/photo/cat2.jpg'']) ''/photo/'' ''cat'' 1 \<and>
   jpg_fails (all_images_but [''/photo/cat1.png'', ''/photo/cat2.jpg'']) ''/photo/'' ''cat'' 2 \<and>
   map imageSrc (currentDeck (session_of
     (probe (all_images_but [''/photo/cat1.png'', ''/photo/cat2.jpg'']) ''/photo/'' ''cat''
        (probe_start (initial_session Map.empty) 0)))) = [''/photo/cat1.jpg'', ''/photo/cat2.png'']"
proof -
  let ?net = "all_images_but [''/photo/cat1.png'', ''/photo/cat2.jpg'']"
  let ?p0 = "probe_start (initial_session Map.empty) 0"
  let ?p1 = "(probe_body ?net ''/photo/'' ''cat'' ?p0)\<lparr>imageIndex := imageIndex ?p0 + 1\<rparr>"
  have i0: "imageIndex ?p0 = 1" and f0: "\<not> pngFlag ?p0" "\<not> jpgFlag ?p0"
    by (simp_all add: probe_start_def)
  have d0: "currentDeck (session_of ?p0) = []"
    by (simp add: probe_start_def initial_session_def)
  have a: "png_fails ?net ''/photo/'' ''cat'' 1" "\<not> jpg_fails ?net ''/photo/'' ''cat'' 1"
    "\<not> png_fails ?net ''/photo/'' ''cat'' 2" "jpg_fails ?net ''/photo/'' ''cat'' 2"
    by (simp_all add: fetch_eval)
  have a2: "\<not> png_fails ?net ''/photo/'' ''cat'' (Suc (Suc 0))"
    "jpg_fails ?net ''/photo/'' ''cat'' (Suc (Suc 0))"
    using a by (simp_all add: numeral_2_eq_2)
  have go: "\<not> (pngFlag (probe_body ?net ''/photo/'' ''cat'' ?p0) \<and>
              jpgFlag (probe_body ?net ''/photo/'' ''cat'' ?p0))"
    using a f0 by (simp add: flags_probe_body i0)
  have step: "probe ?net ''/photo/'' ''cat'' ?p0 = probe ?net ''/photo/'' ''cat'' ?p1"
    by (rule probe_continue [OF _ go]) (simp add: i0)
  have i1: "imageIndex ?p1 = 2" by (simp add: i0)
  have stop: "pngFlag (probe_body ?net ''/photo/'' ''cat'' ?p1) \<and>
              jpgFlag (probe_body ?net ''/photo/'' ''cat'' ?p1)"
    using a a2 f0 by (simp add: flags_probe_body i1 i0)
  have fin: "probe ?net ''/photo/'' ''cat'' ?p1 = probe_body ?net ''/photo/'' ''cat'' ?p1"
    by (rule probe_stop [OF _ stop]) (simp add: i0)
  have idx: "imageIndex (probe ?net ''/photo/'' ''cat'' ?p0) = 2"
    by (simp only: step fin imageIndex_probe_body i1)
  have d1: "currentDeck (session_of ?p1) = [\<lparr>imageSrc = ''/photo/cat1.jpg'', name = ''cat''\<rparr>]"
    using a by (simp add: deck_probe_body d0 i0 show_nat_Suc_0)
  have "currentDeck (session_of (probe_body ?net ''/photo/'' ''cat'' ?p1)) =
          [\<lparr>imageSrc = ''/photo/cat1.jpg'', name = ''cat''\<rparr>,
           \<lparr>imageSrc = ''/photo/cat2.png'', name = ''cat''\<rparr>]"
    using a by (simp only: deck_probe_body [of ?net _ _ ?p1] d1 i1) (simp add: show_nat_digit)
  then have deck: "map imageSrc (currentDeck (session_of (probe ?net ''/photo/'' ''cat'' ?p0))) =
      [''/photo/cat1.jpg'', ''/photo/cat2.png'']"
    by (simp only: step fin) simp
  show ?thesis
    using idx gap_no_common_index a(1) a(4) deck by blast
qed

end
